theory Spec2Isabelle
  imports Main "HOL-Library.Sublist" "HOL-Library.Word"
begin

section \<open>Strings of the runtime\<close>

text \<open>
  A string of the program is a sequence of UTF-16 code units. \<open>units\<close> gives the
  code units of an ASCII literal of the source. \<open>includes_str s w\<close> is
  \<^verbatim>\<open>s.includes(w)\<close>: it scans the positions of \<open>s\<close> from the left and tests
  whether \<open>w\<close> starts there. \<^verbatim>\<open>String.prototype.toLowerCase\<close> belongs to the
  runtime: the functions that call it take it as the parameter \<open>toLowerCase\<close>, and
  what is proved about them holds for every such function.
\<close>

type_synonym jsstring = "16 word list"

definition units :: "string \<Rightarrow> jsstring" where
  "units s = map (\<lambda>c. of_nat (of_char c)) s"

fun includes_str :: "'a list \<Rightarrow> 'a list \<Rightarrow> bool" where
  "includes_str [] w = (w = [])"
| "includes_str (c # cs) w = (prefix w (c # cs) \<or> includes_str cs w)"

text \<open>The specification's notion of a substring match: \<open>w\<close> occurs in \<open>s\<close>
  when \<open>s\<close> splits into a part before, \<open>w\<close> itself, and a part after.\<close>

definition occurs_in :: "'a list \<Rightarrow> 'a list \<Rightarrow> bool" where
  "occurs_in w s = (\<exists>before after. s = before @ w @ after)"

text \<open>A lowercased text mentions a term set when some term of the set occurs in it.\<close>

definition mentions :: "jsstring list \<Rightarrow> jsstring \<Rightarrow> bool" where
  "mentions terms lowered = (\<exists>w \<in> set terms. occurs_in w lowered)"

text \<open>
  A lowercasing function for concrete texts. It agrees with
  \<^verbatim>\<open>String.prototype.toLowerCase\<close> on the ASCII letters, on the Kelvin sign
  U+212A (which lowercases to \<open>k\<close>) and on U+0130 (which lowercases to \<open>i\<close> followed
  by U+0307), and leaves every other code unit as it is.
\<close>

definition lowerUnit :: "16 word \<Rightarrow> jsstring" where
  "lowerUnit u =
    (if 0x41 \<le> u \<and> u \<le> 0x5A then [u + 0x20]
     else if u = 0x212A then [0x6B]
     else if u = 0x130 then [0x69, 0x307]
     else [u])"

definition sampleToLowerCase :: "jsstring \<Rightarrow> jsstring" where
  "sampleToLowerCase s = concat (map lowerUnit s)"

section \<open>Risk classifier and fallback responses (pages/Chat.tsx)\<close>

definition highRiskWords :: "jsstring list" where
  "highRiskWords =
    map units
      [''hit'', ''hits'', ''hitting'', ''punch'', ''kick'', ''choke'', ''strangle'', ''weapon'',
       ''knife'', ''gun'', ''kill'', ''murder'', ''rape'', ''force'']"

definition mediumRiskWords :: "jsstring list" where
  "mediumRiskWords =
    map units
      [''hurt'', ''afraid'', ''scared'', ''fear'', ''threaten'', ''control'', ''isolate'', ''yell'',
       ''scream'', ''insult'', ''slap'', ''push'', ''shove'']"

text \<open>\<^verbatim>\<open>analyzeRisk\<close>: \<^verbatim>\<open>words.some(word => lowerText.includes(word))\<close> is
  \<open>list_ex\<close> over the word list.\<close>

definition analyzeRisk :: "(jsstring \<Rightarrow> jsstring) \<Rightarrow> jsstring \<Rightarrow> string" where
  "analyzeRisk toLowerCase text =
    (let lowerText = toLowerCase text;
         hasHighRisk = list_ex (\<lambda>word. includes_str lowerText word) highRiskWords;
         hasMediumRisk = list_ex (\<lambda>word. includes_str lowerText word) mediumRiskWords
     in if hasHighRisk then ''high'' else if hasMediumRisk then ''medium'' else ''low'')"

text \<open>The seven canned messages of \<^verbatim>\<open>generateFallbackResponse\<close>, in source order.\<close>

definition highRiskResponse :: string where
  "highRiskResponse =
    ''I'm very concerned about your safety. What you're describing sounds serious and dangerous. Please know that you don't deserve to be treated this way, and help is available. Would you like me to share emergency contact numbers for your country? If you're in immediate danger, please call emergency services or use the helpline numbers at the bottom of this page.''"

definition mediumRiskResponse :: string where
  "mediumRiskResponse =
    ''Thank you for sharing that with me. What you're experiencing sounds really difficult and you deserve to feel safe and respected. These behaviors can be warning signs of abuse. Would you be open to taking our safety assessment? It might help you understand your situation better. Remember, you have options and support is available.''"

definition helpResponse :: string where
  "helpResponse =
    ''I'm here to support you. Here are some steps you can take: 1) Take our safety assessment to better understand your situation, 2) Create a safety plan, 3) Reach out to local helplines (you'll find numbers at the bottom of this page), 4) Talk to someone you trust. Would you like me to guide you through any of these?''"

definition leavingResponse :: string where
  "leavingResponse =
    ''Leaving an abusive situation is a brave step, and it's important to plan carefully for your safety. Our safety plan tool can help you prepare. Remember: leaving can be the most dangerous time, so having a plan is crucial. Would you like help creating a safety plan?''"

definition selfBlameResponse :: string where
  "selfBlameResponse =
    ''Please hear this: abuse is NEVER your fault. No matter what you did or didn't do, no one deserves to be hurt, controlled, or frightened. The person choosing to be abusive is responsible for their behavior, not you. You deserve to be treated with respect and kindness.''"

definition childrenResponse :: string where
  "childrenResponse =
    ''I understand you're concerned about children in this situation. Children who witness abuse are affected by it, even if they're not directly harmed. Their safety and wellbeing matter too. If you're worried about a child's safety, please reach out to child protection services or the helplines at the bottom of this page.''"

definition defaultResponse :: string where
  "defaultResponse =
    ''Thank you for sharing that with me. Your feelings are valid, and it takes courage to talk about these things. I'm here to listen without judgment. Would you like to tell me more, or would you prefer to explore our safety assessment or resources?''"

definition generateFallbackResponse :: "(jsstring \<Rightarrow> jsstring) \<Rightarrow> jsstring \<Rightarrow> string" where
  "generateFallbackResponse toLowerCase userMessage =
    (let riskLevel = analyzeRisk toLowerCase userMessage;
         lowerMessage = toLowerCase userMessage
     in if riskLevel = ''high'' then highRiskResponse
        else if riskLevel = ''medium'' then mediumRiskResponse
        else if includes_str lowerMessage (units ''help'')
                \<or> includes_str lowerMessage (units ''what do i do'')
                \<or> includes_str lowerMessage (units ''what should i'') then helpResponse
        else if includes_str lowerMessage (units ''leave'')
                \<or> includes_str lowerMessage (units ''leaving'') then leavingResponse
        else if includes_str lowerMessage (units ''fault'')
                \<or> includes_str lowerMessage (units ''blame'')
                \<or> includes_str lowerMessage (units ''my fault'') then selfBlameResponse
        else if includes_str lowerMessage (units ''children'')
                \<or> includes_str lowerMessage (units ''kids'')
                \<or> includes_str lowerMessage (units ''child'') then childrenResponse
        else defaultResponse)"

section \<open>Encoding-format negotiation (utils/audioUtils.ts)\<close>

text \<open>
  \<^verbatim>\<open>getSupportedMimeType\<close> walks the preference list and returns at the first
  type for which the runtime's \<^verbatim>\<open>MediaRecorder.isTypeSupported\<close> answers true;
  after the loop it returns the fallback. The runtime's predicate is the parameter
  \<open>isTypeSupported\<close>.
\<close>

definition mimeTypes :: "string list" where
  "mimeTypes = [''audio/webm'', ''audio/webm;codecs=opus'', ''audio/ogg;codecs=opus'', ''audio/mp4'']"

fun firstSupportedOr :: "(string \<Rightarrow> bool) \<Rightarrow> string list \<Rightarrow> string" where
  "firstSupportedOr isTypeSupported [] = ''audio/webm''"
| "firstSupportedOr isTypeSupported (t # ts) =
    (if isTypeSupported t then t else firstSupportedOr isTypeSupported ts)"

definition getSupportedMimeType :: "(string \<Rightarrow> bool) \<Rightarrow> string" where
  "getSupportedMimeType isTypeSupported = firstSupportedOr isTypeSupported mimeTypes"

section \<open>Voice recorder (components/VoiceRecorder.tsx, utils/audioUtils.ts)\<close>

subsection \<open>Values of the runtime\<close>

text \<open>
  A \<^verbatim>\<open>Blob\<close> is its bytes and its media type; \<^verbatim>\<open>new Blob(parts, {type})\<close>
  concatenates the parts in order. A \<^verbatim>\<open>MediaRecorder\<close> object is the stream it
  records, the media type it was constructed with and its
  \<^verbatim>\<open>state\<close> attribute. Streams, interval timers and object URLs are handles
  (positive numbers) handed out by the browser.
\<close>

record blob =
  bdata :: "nat list"
  btype :: string

definition blob_size :: "blob \<Rightarrow> nat" where
  "blob_size b = length (bdata b)"

definition newBlob :: "blob list \<Rightarrow> string \<Rightarrow> blob" where
  "newBlob parts t = \<lparr>bdata = concat (map bdata parts), btype = t\<rparr>"

datatype recording_state = Inactive | RecordingS | PausedS

record media_recorder =
  mrStream :: nat
  mrMimeType :: string
  mrState :: recording_state

text \<open>A thrown value, as the \<^verbatim>\<open>catch\<close> of \<^verbatim>\<open>startRecording\<close> tells
  them apart: an \<^verbatim>\<open>Error\<close> with its message, or anything else.\<close>

datatype thrown = ErrorObj string | OtherValue

text \<open>
  What the runtime offers: the three capabilities \<^verbatim>\<open>isAudioRecordingSupported\<close>
  probes, the answer of \<^verbatim>\<open>MediaRecorder.isTypeSupported\<close>, what
  \<^verbatim>\<open>new MediaRecorder(stream, {mimeType})\<close> throws for a media type, if it throws,
  and what \<^verbatim>\<open>mediaRecorder.start()\<close> throws, if it throws.
\<close>

record runtime =
  hasMediaDevices :: bool
  hasGetUserMedia :: bool
  hasMediaRecorder :: bool
  isTypeSupported :: "string \<Rightarrow> bool"
  newMediaRecorder :: "string \<Rightarrow> thrown option"
  recorderStart :: "thrown option"

text \<open>How a \<^verbatim>\<open>getUserMedia\<close> call ends: with a stream, or rejected with a value
  that is an \<^verbatim>\<open>Error\<close> of some name or is not an \<^verbatim>\<open>Error\<close> at all.\<close>

datatype rejection = NamedError string | NotAnError

datatype gum_result = Resolved | Rejected rejection

subsection \<open>State of the component\<close>

text \<open>
  \<open>hooks\<close> holds the values of the seven \<^verbatim>\<open>useState\<close> hooks. The functions of
  a render close over the values of that render: a handler that reads
  \<^verbatim>\<open>isRecording\<close> or \<^verbatim>\<open>audioUrl\<close> reads the render's snapshot, also
  after a setter ran earlier in the same handler. Handlers that read hook values therefore
  take the snapshot \<open>r\<close> as an argument beside the state \<open>s\<close>, which holds the
  pending hook values, the refs (read and written in place), the browser's resources and
  what was emitted to the host.
\<close>

record hooks =
  isRecording :: bool
  isPaused :: bool
  duration :: nat
  audioUrl :: "nat option"
  audioBlob :: "blob option"
  error :: "string option"
  isPlaying :: bool

record recorder =
  hooks :: hooks
  mediaRecorderRef :: "media_recorder option"
  audioChunksRef :: "blob list"
  streamRef :: "nat option"
  timerRef :: "nat option"
  intervals :: "nat list"
  liveStreams :: "nat list"
  objectUrls :: "nat list"
  nextHandle :: nat
  deviceRequests :: nat
  pendingRequests :: nat
  supersededRecorders :: "media_recorder list"
  sentVoice :: "blob list"
  cancelCalls :: nat
  mounted :: bool

text \<open>
  \<open>intervals\<close>: the interval timers that are running; \<open>liveStreams\<close>: the capture
  streams whose tracks have not been stopped (the microphone is held); \<open>objectUrls\<close>:
  the object URLs created and not revoked; \<open>deviceRequests\<close>: how many times
  \<^verbatim>\<open>getUserMedia\<close> was called; \<open>pendingRequests\<close>: how many of these calls
  the browser has not answered yet, each with a call of \<^verbatim>\<open>startRecording\<close>
  suspended at its \<^verbatim>\<open>await\<close>; \<open>supersededRecorders\<close>: the recorders that
  \<^verbatim>\<open>mediaRecorderRef\<close> pointed to before it was overwritten; \<open>sentVoice\<close> and
  \<open>cancelCalls\<close>: the calls of the props \<^verbatim>\<open>onSendVoice\<close> and
  \<^verbatim>\<open>onCancel\<close>.
\<close>

definition initialHooks :: hooks where
  "initialHooks =
    \<lparr>isRecording = False, isPaused = False, duration = 0, audioUrl = None, audioBlob = None,
     error = None, isPlaying = False\<rparr>"

definition initialRecorder :: recorder where
  "initialRecorder =
    \<lparr>hooks = initialHooks, mediaRecorderRef = None, audioChunksRef = [], streamRef = None,
     timerRef = None, intervals = [], liveStreams = [], objectUrls = [], nextHandle = 1,
     deviceRequests = 0, pendingRequests = 0, supersededRecorders = [], sentVoice = [],
     cancelCalls = 0, mounted = True\<rparr>"

definition setIsRecording :: "bool \<Rightarrow> recorder \<Rightarrow> recorder" where
  "setIsRecording v s = s\<lparr>hooks := (hooks s)\<lparr>isRecording := v\<rparr>\<rparr>"

definition setIsPaused :: "bool \<Rightarrow> recorder \<Rightarrow> recorder" where
  "setIsPaused v s = s\<lparr>hooks := (hooks s)\<lparr>isPaused := v\<rparr>\<rparr>"

definition setDuration :: "(nat \<Rightarrow> nat) \<Rightarrow> recorder \<Rightarrow> recorder" where
  "setDuration f s = s\<lparr>hooks := (hooks s)\<lparr>duration := f (duration (hooks s))\<rparr>\<rparr>"

definition setAudioUrl :: "nat option \<Rightarrow> recorder \<Rightarrow> recorder" where
  "setAudioUrl v s = s\<lparr>hooks := (hooks s)\<lparr>audioUrl := v\<rparr>\<rparr>"

definition setAudioBlob :: "blob option \<Rightarrow> recorder \<Rightarrow> recorder" where
  "setAudioBlob v s = s\<lparr>hooks := (hooks s)\<lparr>audioBlob := v\<rparr>\<rparr>"

definition setError :: "string option \<Rightarrow> recorder \<Rightarrow> recorder" where
  "setError v s = s\<lparr>hooks := (hooks s)\<lparr>error := v\<rparr>\<rparr>"

definition setIsPlaying :: "bool \<Rightarrow> recorder \<Rightarrow> recorder" where
  "setIsPlaying v s = s\<lparr>hooks := (hooks s)\<lparr>isPlaying := v\<rparr>\<rparr>"

subsection \<open>Browser calls\<close>

definition setInterval :: "recorder \<Rightarrow> nat \<times> recorder" where
  "setInterval s =
    (nextHandle s, s\<lparr>intervals := intervals s @ [nextHandle s], nextHandle := nextHandle s + 1\<rparr>)"

definition clearInterval :: "nat \<Rightarrow> recorder \<Rightarrow> recorder" where
  "clearInterval t s = s\<lparr>intervals := removeAll t (intervals s)\<rparr>"

definition createObjectURL :: "recorder \<Rightarrow> nat \<times> recorder" where
  "createObjectURL s =
    (nextHandle s, s\<lparr>objectUrls := objectUrls s @ [nextHandle s], nextHandle := nextHandle s + 1\<rparr>)"

definition revokeObjectURL :: "nat \<Rightarrow> recorder \<Rightarrow> recorder" where
  "revokeObjectURL u s = s\<lparr>objectUrls := removeAll u (objectUrls s)\<rparr>"

definition stopTracks :: "nat \<Rightarrow> recorder \<Rightarrow> recorder" where
  "stopTracks stream s = s\<lparr>liveStreams := removeAll stream (liveStreams s)\<rparr>"

subsection \<open>utils/audioUtils.ts\<close>

definition isAudioRecordingSupported :: "runtime \<Rightarrow> bool" where
  "isAudioRecordingSupported rt = (hasMediaDevices rt \<and> hasGetUserMedia rt \<and> hasMediaRecorder rt)"

definition permissionDeniedMessage :: string where
  "permissionDeniedMessage =
    ''Microphone permission denied. Please allow microphone access to record voice messages.''"

definition noMicrophoneMessage :: string where
  "noMicrophoneMessage = ''No microphone found. Please connect a microphone and try again.''"

definition accessFailedMessage :: string where
  "accessFailedMessage = ''Failed to access microphone. Please check your browser settings.''"

definition unsupportedMessage :: string where
  "unsupportedMessage = ''Audio recording is not supported in your browser.''"

text \<open>
  \<^verbatim>\<open>requestMicrophonePermission\<close> calls \<^verbatim>\<open>getUserMedia\<close> and awaits the
  answer. \<open>getUserMedia\<close> is the call: it is counted and pending until the browser
  answers. \<open>requestMicrophonePermission_settle\<close> is the rest of the function, run when
  the browser answers with \<open>res\<close>: the answered request is no longer pending, and
  the function returns the new stream, or throws the \<^verbatim>\<open>Error\<close> it builds from
  the rejection. It runs only for a request that is pending.
\<close>

definition getUserMedia :: "recorder \<Rightarrow> recorder" where
  "getUserMedia s =
    s\<lparr>deviceRequests := deviceRequests s + 1, pendingRequests := pendingRequests s + 1\<rparr>"

definition requestMicrophonePermission_settle ::
  "gum_result \<Rightarrow> recorder \<Rightarrow> (thrown + nat) \<times> recorder" where
  "requestMicrophonePermission_settle res s =
    (let s1 = s\<lparr>pendingRequests := pendingRequests s - 1\<rparr> in
     case res of
       Resolved \<Rightarrow>
         (Inr (nextHandle s1),
          s1\<lparr>liveStreams := liveStreams s1 @ [nextHandle s1], nextHandle := nextHandle s1 + 1\<rparr>)
     | Rejected err \<Rightarrow>
         (case err of
            NamedError name \<Rightarrow>
              if name = ''NotAllowedError'' then (Inl (ErrorObj permissionDeniedMessage), s1)
              else if name = ''NotFoundError'' then (Inl (ErrorObj noMicrophoneMessage), s1)
              else (Inl (ErrorObj accessFailedMessage), s1)
          | NotAnError \<Rightarrow> (Inl (ErrorObj accessFailedMessage), s1)))"

subsection \<open>components/VoiceRecorder.tsx\<close>

text \<open>The callback given to \<^verbatim>\<open>setInterval\<close>, and one second passing: every running
  interval fires its callback once.\<close>

definition onInterval :: "recorder \<Rightarrow> recorder" where
  "onInterval s = setDuration (\<lambda>prev. prev + 1) s"

definition tick :: "recorder \<Rightarrow> recorder" where
  "tick s = fold (\<lambda>t. onInterval) (intervals s) s"

definition startTimer :: "recorder \<Rightarrow> recorder" where
  "startTimer s = (case setInterval s of (t, s1) \<Rightarrow> s1\<lparr>timerRef := Some t\<rparr>)"

definition stopTimer :: "recorder \<Rightarrow> recorder" where
  "stopTimer s =
    (case timerRef s of
       Some t \<Rightarrow> (clearInterval t s)\<lparr>timerRef := None\<rparr>
     | None \<Rightarrow> s)"

text \<open>The two handlers \<^verbatim>\<open>startRecording\<close> installs on the recorder.
  \<open>mimeType\<close> is the variable of the \<^verbatim>\<open>startRecording\<close> call they close over.\<close>

definition ondataavailable :: "blob \<Rightarrow> recorder \<Rightarrow> recorder" where
  "ondataavailable d s =
    (if blob_size d > 0 then s\<lparr>audioChunksRef := audioChunksRef s @ [d]\<rparr> else s)"

definition onstop :: "string \<Rightarrow> recorder \<Rightarrow> recorder" where
  "onstop mimeType s =
    (let b = newBlob (audioChunksRef s) mimeType in
     case createObjectURL s of
       (url, s1) \<Rightarrow>
         (let s2 = setAudioBlob (Some b) s1;
              s3 = setAudioUrl (Some url) s2
          in case streamRef s3 of
               Some stream \<Rightarrow> stopTracks stream s3
             | None \<Rightarrow> s3))"

text \<open>
  The methods of \<^verbatim>\<open>MediaRecorder\<close> the component calls. \<^verbatim>\<open>stop()\<close> makes
  the recorder inactive and has the \<^verbatim>\<open>stop\<close> event delivered to the installed
  handler. The browser delivers it in a later task; the model delivers it at once, so the
  states between the call and the event are not states of the model, and what is said of
  the state after a stop is said of the state after the event. Fragments reach the
  component through \<open>ondataavailable\<close>, the last one before the \<^verbatim>\<open>stop\<close>
  event.
\<close>

definition mr_start :: "recorder \<Rightarrow> recorder" where
  "mr_start s = s\<lparr>mediaRecorderRef := map_option (\<lambda>mr. mr\<lparr>mrState := RecordingS\<rparr>) (mediaRecorderRef s)\<rparr>"

definition mr_pause :: "recorder \<Rightarrow> recorder" where
  "mr_pause s = s\<lparr>mediaRecorderRef := map_option (\<lambda>mr. mr\<lparr>mrState := PausedS\<rparr>) (mediaRecorderRef s)\<rparr>"

definition mr_resume :: "recorder \<Rightarrow> recorder" where
  "mr_resume s = s\<lparr>mediaRecorderRef := map_option (\<lambda>mr. mr\<lparr>mrState := RecordingS\<rparr>) (mediaRecorderRef s)\<rparr>"

definition mr_stop :: "recorder \<Rightarrow> recorder" where
  "mr_stop s =
    (case mediaRecorderRef s of
       Some mr \<Rightarrow> onstop (mrMimeType mr) (s\<lparr>mediaRecorderRef := Some (mr\<lparr>mrState := Inactive\<rparr>)\<rparr>)
     | None \<Rightarrow> s)"

text \<open>
  \<^verbatim>\<open>startRecording\<close> is an \<^verbatim>\<open>async\<close> function. \<open>startRecording\<close> is
  what the click runs: the capability check and, when it passes, the call of
  \<^verbatim>\<open>requestMicrophonePermission\<close> up to its \<^verbatim>\<open>await\<close>; other events are
  processed while the request is pending. \<open>startRecording_resume\<close> is the rest of
  the function, run when the browser answers the request with \<open>res\<close>. Everything
  after the capability check is inside the \<^verbatim>\<open>try\<close>: a rejected request, a
  throwing recorder constructor and a throwing \<^verbatim>\<open>mediaRecorder.start()\<close> all
  end in \<open>startRecording_catch\<close>, with what was assigned before the throw left as it
  is. The assignment to \<^verbatim>\<open>mediaRecorderRef\<close> drops the recorder the ref pointed
  to, which is kept in \<open>supersededRecorders\<close>.
\<close>

definition startRecording :: "runtime \<Rightarrow> recorder \<Rightarrow> recorder" where
  "startRecording rt s =
    (if \<not> isAudioRecordingSupported rt then setError (Some unsupportedMessage) s
     else getUserMedia (setError None s))"

definition startRecording_catch :: "thrown \<Rightarrow> recorder \<Rightarrow> recorder" where
  "startRecording_catch err s =
    setError (Some (case err of ErrorObj m \<Rightarrow> m | OtherValue \<Rightarrow> ''Failed to start recording'')) s"

definition startRecording_resume :: "runtime \<Rightarrow> gum_result \<Rightarrow> recorder \<Rightarrow> recorder" where
  "startRecording_resume rt res s =
    (case requestMicrophonePermission_settle res s of
       (Inl err, s2) \<Rightarrow> startRecording_catch err s2
     | (Inr stream, s2) \<Rightarrow>
         (let s3 = s2\<lparr>streamRef := Some stream\<rparr>;
              mimeType = getSupportedMimeType (isTypeSupported rt)
          in case newMediaRecorder rt mimeType of
               Some err \<Rightarrow> startRecording_catch err s3
             | None \<Rightarrow>
                 (let mediaRecorder = \<lparr>mrStream = stream, mrMimeType = mimeType, mrState = Inactive\<rparr>;
                      s4 = s3\<lparr>supersededRecorders :=
                                supersededRecorders s3
                                  @ (case mediaRecorderRef s3 of Some old \<Rightarrow> [old] | None \<Rightarrow> []),
                              mediaRecorderRef := Some mediaRecorder\<rparr>;
                      s5 = s4\<lparr>audioChunksRef := []\<rparr>
                  in case recorderStart rt of
                       Some err \<Rightarrow> startRecording_catch err s5
                     | None \<Rightarrow>
                         (let s6 = mr_start s5;
                              s7 = setIsRecording True s6
                          in startTimer s7))))"

definition stopRecording :: "hooks \<Rightarrow> recorder \<Rightarrow> recorder" where
  "stopRecording r s =
    (if mediaRecorderRef s \<noteq> None \<and> isRecording r
     then stopTimer (setIsPaused False (setIsRecording False (mr_stop s)))
     else s)"

definition pauseRecording :: "hooks \<Rightarrow> recorder \<Rightarrow> recorder" where
  "pauseRecording r s =
    (if mediaRecorderRef s \<noteq> None \<and> isRecording r
     then (if isPaused r
           then setIsPaused False (startTimer (mr_resume s))
           else setIsPaused True (stopTimer (mr_pause s)))
     else s)"

text \<open>The three views of the render function, tested in its order. \<^verbatim>\<open>audioRef\<close> is
  attached to the \<^verbatim>\<open>audio\<close> element, which only the third view renders.\<close>

datatype view = StartView | RecordingView | ReadyView

definition view :: "hooks \<Rightarrow> view" where
  "view r =
    (if \<not> isRecording r \<and> audioUrl r = None then StartView
     else if isRecording r then RecordingView
     else ReadyView)"

definition playAudio :: "hooks \<Rightarrow> recorder \<Rightarrow> recorder" where
  "playAudio r s =
    (if audioUrl r \<noteq> None \<and> view r = ReadyView
     then (if isPlaying r then setIsPlaying False s else setIsPlaying True s)
     else s)"

definition handleSend :: "hooks \<Rightarrow> recorder \<Rightarrow> recorder" where
  "handleSend r s =
    (case audioBlob r of
       Some b \<Rightarrow>
         (let s1 = s\<lparr>sentVoice := sentVoice s @ [b]\<rparr> in
          case audioUrl r of Some u \<Rightarrow> revokeObjectURL u s1 | None \<Rightarrow> s1)
     | None \<Rightarrow> s)"

definition handleCancel :: "hooks \<Rightarrow> recorder \<Rightarrow> recorder" where
  "handleCancel r s =
    (let s1 = stopRecording r s;
         s2 = (case audioUrl r of Some u \<Rightarrow> revokeObjectURL u s1 | None \<Rightarrow> s1)
     in s2\<lparr>cancelCalls := cancelCalls s2 + 1\<rparr>)"

text \<open>
  The cleanup of the mount effect. The effect has an empty dependency list, so the cleanup
  that runs at unmount is the one created by the first render: its \<^verbatim>\<open>stopRecording\<close>
  and its \<^verbatim>\<open>audioUrl\<close> are those of the snapshot \<open>r\<close> of that render, while
  \<^verbatim>\<open>streamRef\<close> and \<^verbatim>\<open>timerRef\<close> are read in place.
\<close>

definition cleanup :: "hooks \<Rightarrow> recorder \<Rightarrow> recorder" where
  "cleanup r s =
    (let s1 = stopRecording r s;
         s2 = (case audioUrl r of Some u \<Rightarrow> revokeObjectURL u s1 | None \<Rightarrow> s1);
         s3 = (case streamRef s2 of Some stream \<Rightarrow> stopTracks stream s2 | None \<Rightarrow> s2);
         s4 = (case timerRef s3 of Some t \<Rightarrow> clearInterval t s3 | None \<Rightarrow> s3)
     in s4)"

definition unmount :: "recorder \<Rightarrow> recorder" where
  "unmount s = (cleanup initialHooks s)\<lparr>mounted := False\<rparr>"

subsection \<open>Events\<close>

text \<open>
  One event is processed at a time. The user's events are the clicks on the buttons of
  the view that is rendered; the runtime's are the answer to a pending device request, the
  passing of a second, the delivery of a fragment by an active recorder, the end of the
  preview playback, and the host tearing the component down. The host (pages/Chat.tsx)
  hides the recorder, which unmounts it, in \<^verbatim>\<open>onCancel\<close> and in
  \<^verbatim>\<open>handleSendVoice\<close>. The answer to a device request resumes the suspended
  \<^verbatim>\<open>startRecording\<close> whether or not the component is still mounted; the model
  keeps the hook values of an unmounted component, which nothing can observe any more.
\<close>

datatype event =
  ClickStart
  | DeviceAnswer gum_result
  | ClickPause
  | ClickStop
  | ClickPlay
  | AudioEnded
  | ClickSend
  | ClickCancel
  | Tick
  | DataAvailable blob
  | Teardown

definition recorderActive :: "recorder \<Rightarrow> bool" where
  "recorderActive s =
    (case mediaRecorderRef s of Some mr \<Rightarrow> mrState mr \<noteq> Inactive | None \<Rightarrow> False)"

definition anyRecorderActive :: "recorder \<Rightarrow> bool" where
  "anyRecorderActive s =
    (recorderActive s \<or> list_ex (\<lambda>mr. mrState mr \<noteq> Inactive) (supersededRecorders s))"

fun enabled :: "event \<Rightarrow> recorder \<Rightarrow> bool" where
  "enabled ClickStart s = (mounted s \<and> view (hooks s) = StartView)"
| "enabled (DeviceAnswer res) s = (pendingRequests s > 0)"
| "enabled ClickPause s = (mounted s \<and> view (hooks s) = RecordingView)"
| "enabled ClickStop s = (mounted s \<and> view (hooks s) = RecordingView)"
| "enabled ClickPlay s = (mounted s \<and> view (hooks s) = ReadyView)"
| "enabled AudioEnded s = (mounted s \<and> view (hooks s) = ReadyView)"
| "enabled ClickSend s = (mounted s \<and> view (hooks s) = ReadyView)"
| "enabled ClickCancel s = mounted s"
| "enabled Tick s = True"
| "enabled (DataAvailable d) s = anyRecorderActive s"
| "enabled Teardown s = mounted s"

fun fire :: "runtime \<Rightarrow> event \<Rightarrow> recorder \<Rightarrow> recorder" where
  "fire rt ClickStart s = startRecording rt s"
| "fire rt (DeviceAnswer res) s = startRecording_resume rt res s"
| "fire rt ClickPause s = pauseRecording (hooks s) s"
| "fire rt ClickStop s = stopRecording (hooks s) s"
| "fire rt ClickPlay s = playAudio (hooks s) s"
| "fire rt AudioEnded s = setIsPlaying False s"
| "fire rt ClickSend s =
    (if audioBlob (hooks s) \<noteq> None then unmount (handleSend (hooks s) s)
     else handleSend (hooks s) s)"
| "fire rt ClickCancel s = unmount (handleCancel (hooks s) s)"
| "fire rt Tick s = tick s"
| "fire rt (DataAvailable d) s = ondataavailable d s"
| "fire rt Teardown s = unmount s"

fun run :: "runtime \<Rightarrow> event list \<Rightarrow> recorder \<Rightarrow> recorder option" where
  "run rt [] s = Some s"
| "run rt (e # es) s = (if enabled e s then run rt es (fire rt e s) else None)"

inductive reachable :: "runtime \<Rightarrow> recorder \<Rightarrow> bool" for rt :: runtime where
  reachable_init: "reachable rt initialRecorder"
| reachable_step: "reachable rt s \<Longrightarrow> enabled e s \<Longrightarrow> reachable rt (fire rt e s)"

text \<open>The phases of the specification, read off the hook values.\<close>

datatype phase = Idle | Recording | Paused | Ready | Closed

definition phase :: "recorder \<Rightarrow> phase" where
  "phase s =
    (if \<not> mounted s then Closed
     else if isRecording (hooks s) then (if isPaused (hooks s) then Paused else Recording)
     else if audioUrl (hooks s) \<noteq> None then Ready
     else Idle)"

text \<open>The resources a session can hold.\<close>

definition holdsNothing :: "recorder \<Rightarrow> bool" where
  "holdsNothing s = (liveStreams s = [] \<and> intervals s = [] \<and> objectUrls s = [])"

subsection \<open>Auxiliary notions of the verification\<close>

text \<open>The media type a session of runtime \<open>rt\<close> negotiates.\<close>

definition negotiated :: "runtime \<Rightarrow> string" where
  "negotiated rt = getSupportedMimeType (isTypeSupported rt)"

text \<open>
  The invariant of all reachable states: the hooks say recording only in a runtime whose
  recorders construct and start, and then \<^verbatim>\<open>mediaRecorderRef\<close> holds an active
  recorder of the negotiated type and \<^verbatim>\<open>streamRef\<close> a stream, which is live as
  long as the component is mounted.
\<close>

definition inv :: "runtime \<Rightarrow> recorder \<Rightarrow> bool" where
  "inv rt s =
    (isRecording (hooks s) \<longrightarrow>
       newMediaRecorder rt (negotiated rt) = None \<and> recorderStart rt = None
       \<and> (\<exists>mr stream. mediaRecorderRef s = Some mr \<and> mrMimeType mr = negotiated rt
             \<and> mrState mr \<noteq> Inactive \<and> streamRef s = Some stream
             \<and> (mounted s \<longrightarrow> stream \<in> set (liveStreams s))))"

text \<open>A runtime whose recorders construct and start without throwing.\<close>

definition recorderWorks :: "runtime \<Rightarrow> bool" where
  "recorderWorks rt = ((\<forall>t. newMediaRecorder rt t = None) \<and> recorderStart rt = None)"

text \<open>
  A session is started once when the start button is not clicked while a device request
  is pending. \<open>reachableOnce\<close> are the states such sessions reach, and \<open>invOnce\<close> is
  their invariant, in a runtime whose recorders work, while the component is mounted: a
  pending request means nothing has been started yet; while recording there is no artifact and no object URL, the stream of
  \<^verbatim>\<open>streamRef\<close> is the one live stream, and the interval of \<^verbatim>\<open>timerRef\<close> is
  the one running interval unless the session is paused; otherwise nothing ticks, no
  stream is live, and the object URLs are exactly the preview URL of the artifact, if
  there is one.
\<close>

inductive reachableOnce :: "runtime \<Rightarrow> recorder \<Rightarrow> bool" for rt :: runtime where
  once_init: "reachableOnce rt initialRecorder"
| once_step: "reachableOnce rt s \<Longrightarrow> enabled e s \<Longrightarrow> (e = ClickStart \<longrightarrow> pendingRequests s = 0)
    \<Longrightarrow> reachableOnce rt (fire rt e s)"

definition invOnce :: "runtime \<Rightarrow> recorder \<Rightarrow> bool" where
  "invOnce rt s =
    (mounted s \<longrightarrow>
      pendingRequests s \<le> 1
      \<and> (pendingRequests s = 1 \<longrightarrow> \<not> isRecording (hooks s) \<and> audioUrl (hooks s) = None)
      \<and> (if isRecording (hooks s) then
            audioUrl (hooks s) = None \<and> audioBlob (hooks s) = None \<and> objectUrls s = []
            \<and> (\<exists>stream. streamRef s = Some stream \<and> liveStreams s = [stream])
            \<and> (if isPaused (hooks s) then timerRef s = None \<and> intervals s = []
                else \<exists>t. timerRef s = Some t \<and> intervals s = [t])
          else
            \<not> isPaused (hooks s) \<and> timerRef s = None \<and> intervals s = [] \<and> liveStreams s = []
            \<and> (audioBlob (hooks s) = None \<longleftrightarrow> audioUrl (hooks s) = None)
            \<and> objectUrls s = (case audioUrl (hooks s) of None \<Rightarrow> [] | Some u \<Rightarrow> [u])))"

text \<open>The message \<^verbatim>\<open>requestMicrophonePermission\<close> throws for a rejection.\<close>

definition rejectionMessage :: "rejection \<Rightarrow> string" where
  "rejectionMessage e =
    (if e = NamedError ''NotAllowedError'' then permissionDeniedMessage
     else if e = NamedError ''NotFoundError'' then noMicrophoneMessage
     else accessFailedMessage)"

text \<open>The scenario of the specification: start (granted), three ticks, pause, two ticks,
  resume, two ticks, stop.\<close>

definition scenario :: "event list" where
  "scenario =
    [ClickStart, DeviceAnswer Resolved, Tick, Tick, Tick, ClickPause, Tick, Tick, ClickPause,
     Tick, Tick, ClickStop]"

text \<open>
  A runtime with every capability that records \<^verbatim>\<open>audio/mp4\<close> only; one without
  \<^verbatim>\<open>MediaRecorder\<close>; one that supports none of the media types, so that the
  recorder constructor throws for the fallback type it is given; and states of a session
  in the first: recording, paused and ready.
\<close>

definition sampleRuntime :: runtime where
  "sampleRuntime =
    \<lparr>hasMediaDevices = True, hasGetUserMedia = True, hasMediaRecorder = True,
     isTypeSupported = (\<lambda>t. t = ''audio/mp4''), newMediaRecorder = (\<lambda>t. None),
     recorderStart = None\<rparr>"

definition notSupportedMessage :: string where
  "notSupportedMessage = ''NotSupportedError: the type provided (audio/webm) is not supported.''"

definition noEncoderRuntime :: runtime where
  "noEncoderRuntime =
    sampleRuntime\<lparr>isTypeSupported := (\<lambda>t. False),
      newMediaRecorder := (\<lambda>t. Some (ErrorObj notSupportedMessage))\<rparr>"

definition recordingState :: recorder where
  "recordingState =
    fire sampleRuntime (DeviceAnswer Resolved) (fire sampleRuntime ClickStart initialRecorder)"

definition pausedState :: recorder where
  "pausedState = fire sampleRuntime ClickPause recordingState"

definition readyState :: recorder where
  "readyState = fire sampleRuntime ClickStop recordingState"

text \<open>Three fragments, the second one empty.\<close>

definition fragments :: "blob list" where
  "fragments = [\<lparr>bdata = [1, 2], btype = []\<rparr>, \<lparr>bdata = [], btype = []\<rparr>, \<lparr>bdata = [3], btype = []\<rparr>]"

text \<open>The start button clicked twice before the browser answers, both requests granted;
  and the state this leads to.\<close>

definition doubleStart :: "event list" where
  "doubleStart = [ClickStart, ClickStart, DeviceAnswer Resolved, DeviceAnswer Resolved]"

definition doubleStartState :: recorder where
  "doubleStartState =
    fire sampleRuntime (DeviceAnswer Resolved)
      (fire sampleRuntime (DeviceAnswer Resolved)
        (fire sampleRuntime ClickStart (fire sampleRuntime ClickStart initialRecorder)))"

text \<open>A second start answered only after the first session was stopped.\<close>

definition overwriteRun :: "event list" where
  "overwriteRun =
    [ClickStart, ClickStart, DeviceAnswer Resolved, DataAvailable \<lparr>bdata = [1, 2], btype = []\<rparr>,
     ClickStop, DeviceAnswer Resolved, ClickStop]"

section \<open>Verification of the classifier and of the fallback responses\<close>

text \<open>\<^verbatim>\<open>includes\<close> decides the specification's substring match.\<close>

lemma includes_str_occurs: "includes_str s w = occurs_in w s"
proof (induction s)
  case Nil
  then show ?case by (simp add: occurs_in_def)
next
  case (Cons c cs)
  have "occurs_in w (c # cs) \<longleftrightarrow> prefix w (c # cs) \<or> occurs_in w cs"
  proof
    assume "occurs_in w (c # cs)"
    then obtain p a where e: "c # cs = p @ w @ a" by (auto simp: occurs_in_def)
    show "prefix w (c # cs) \<or> occurs_in w cs"
    proof (cases p)
      case Nil
      with e show ?thesis by (simp add: prefix_def)
    next
      case (Cons x p')
      with e have "cs = p' @ w @ a" by simp
      then show ?thesis by (auto simp: occurs_in_def)
    qed
  next
    assume "prefix w (c # cs) \<or> occurs_in w cs"
    then show "occurs_in w (c # cs)"
    proof
      assume "prefix w (c # cs)"
      then obtain a where "c # cs = [] @ w @ a" by (auto simp: prefix_def)
      then show ?thesis unfolding occurs_in_def by blast
    next
      assume "occurs_in w cs"
      then obtain p a where "cs = p @ w @ a" by (auto simp: occurs_in_def)
      then have "c # cs = (c # p) @ w @ a" by simp
      then show ?thesis unfolding occurs_in_def by blast
    qed
  qed
  with Cons show ?case by simp
qed

lemma list_ex_mentions:
  "list_ex (\<lambda>word. includes_str lowered word) ws = mentions ws lowered"
  by (simp add: list_ex_iff mentions_def includes_str_occurs)

lemma mentions_exec:
  "mentions ws lowered = list_ex (\<lambda>word. includes_str lowered word) ws"
  by (simp add: list_ex_mentions)


text \<open>
  C1. For every text and whatever function the runtime's \<^verbatim>\<open>toLowerCase\<close> is,
  \<open>analyzeRisk\<close> answers \<open>high\<close> when a high-risk term occurs in the lowercased
  text, otherwise \<open>medium\<close> when a medium-risk term occurs in it, otherwise \<open>low\<close>.
  A text whose lowercased form has terms of both sets is \<open>high\<close>, and every text gets
  one of the three answers.
\<close>

theorem analyzeRisk_spec:
  "analyzeRisk toLowerCase text =
     (if mentions highRiskWords (toLowerCase text) then ''high''
      else if mentions mediumRiskWords (toLowerCase text) then ''medium'' else ''low'')
   \<and> (mentions highRiskWords (toLowerCase text) \<and> mentions mediumRiskWords (toLowerCase text)
        \<longrightarrow> analyzeRisk toLowerCase text = ''high'')
   \<and> analyzeRisk toLowerCase text \<in> {''high'', ''medium'', ''low''}"
  by (simp add: analyzeRisk_def Let_def list_ex_mentions)

theorem analyzeRisk_spec_witness:
  "sampleToLowerCase (units ''He HIT me and also SCARED me'') = units ''he hit me and also scared me''
   \<and> \<not> mentions highRiskWords (units ''He HIT me and also SCARED me'')
   \<and> mentions highRiskWords (sampleToLowerCase (units ''He HIT me and also SCARED me''))
   \<and> mentions mediumRiskWords (sampleToLowerCase (units ''He HIT me and also SCARED me''))
   \<and> analyzeRisk sampleToLowerCase (units ''He HIT me and also SCARED me'') = ''high''
   \<and> analyzeRisk sampleToLowerCase (0x212A # units ''ill'') = ''high''
   \<and> \<not> mentions highRiskWords (sampleToLowerCase (units ''He Isolated me and controls my money''))
   \<and> analyzeRisk sampleToLowerCase (units ''He Isolated me and controls my money'') = ''medium''
   \<and> analyzeRisk sampleToLowerCase (units ''I had a good day'') = ''low''"
proof -
  let ?a = "units ''He HIT me and also SCARED me''"
  let ?k = "0x212A # units ''ill''"
  let ?b = "units ''He Isolated me and controls my money''"
  let ?c = "units ''I had a good day''"
  have l: "sampleToLowerCase ?a = units ''he hit me and also scared me''" by code_simp
  have n: "\<not> mentions highRiskWords ?a" unfolding mentions_exec by code_simp
  have h: "mentions highRiskWords (sampleToLowerCase ?a)" unfolding mentions_exec by code_simp
  have m: "mentions mediumRiskWords (sampleToLowerCase ?a)" unfolding mentions_exec by code_simp
  have k: "mentions highRiskWords (sampleToLowerCase ?k)" unfolding mentions_exec by code_simp
  have h2: "\<not> mentions highRiskWords (sampleToLowerCase ?b)" unfolding mentions_exec by code_simp
  have m2: "mentions mediumRiskWords (sampleToLowerCase ?b)" unfolding mentions_exec by code_simp
  have h3: "\<not> mentions highRiskWords (sampleToLowerCase ?c)" unfolding mentions_exec by code_simp
  have m3: "\<not> mentions mediumRiskWords (sampleToLowerCase ?c)" unfolding mentions_exec by code_simp
  have 1: "analyzeRisk sampleToLowerCase ?a = ''high''"
    using analyzeRisk_spec [of sampleToLowerCase ?a] h m by presburger
  have 2: "analyzeRisk sampleToLowerCase ?k = ''high''"
    using analyzeRisk_spec [of sampleToLowerCase ?k] k by presburger
  have 3: "analyzeRisk sampleToLowerCase ?b = ''medium''"
    using analyzeRisk_spec [of sampleToLowerCase ?b] h2 m2 by presburger
  have 4: "analyzeRisk sampleToLowerCase ?c = ''low''"
    using analyzeRisk_spec [of sampleToLowerCase ?c] h3 m3 by presburger
  from l n h m 1 2 h2 3 4 show ?thesis by blast
qed

lemma includes_one: "includes_str lowered w = mentions [w] lowered"
  by (simp add: mentions_def includes_str_occurs)

lemma mentions_Cons: "mentions (w # ws) lowered = (mentions [w] lowered \<or> mentions ws lowered)"
  by (auto simp: mentions_def)

lemma responses_distinct:
  "distinct [highRiskResponse, mediumRiskResponse, helpResponse, leavingResponse,
             selfBlameResponse, childrenResponse, defaultResponse]"
  by (simp add: highRiskResponse_def mediumRiskResponse_def helpResponse_def leavingResponse_def
        selfBlameResponse_def childrenResponse_def defaultResponse_def)

lemma analyzeRisk_high:
  "analyzeRisk toLowerCase text = ''high'' \<longleftrightarrow> mentions highRiskWords (toLowerCase text)"
  by (simp add: analyzeRisk_def Let_def list_ex_mentions)

lemma analyzeRisk_medium:
  "analyzeRisk toLowerCase text = ''medium'' \<longleftrightarrow>
     \<not> mentions highRiskWords (toLowerCase text) \<and> mentions mediumRiskWords (toLowerCase text)"
  by (simp add: analyzeRisk_def Let_def list_ex_mentions)

lemma generateFallbackResponse_chain:
  "generateFallbackResponse toLowerCase text =
     (if mentions highRiskWords (toLowerCase text) then highRiskResponse
      else if mentions mediumRiskWords (toLowerCase text) then mediumRiskResponse
      else if mentions (map units [''help'', ''what do i do'', ''what should i'']) (toLowerCase text)
        then helpResponse
      else if mentions (map units [''leave'', ''leaving'']) (toLowerCase text) then leavingResponse
      else if mentions (map units [''fault'', ''blame'', ''my fault'']) (toLowerCase text)
        then selfBlameResponse
      else if mentions (map units [''children'', ''kids'', ''child'']) (toLowerCase text)
        then childrenResponse
      else defaultResponse)"
  unfolding generateFallbackResponse_def Let_def analyzeRisk_high analyzeRisk_medium includes_one
    list.map
  by (simp only: mentions_Cons [of _ "_ # _"] disj_assoc) argo

text \<open>
  C2. For every text and whatever function the runtime's \<^verbatim>\<open>toLowerCase\<close> is,
  \<open>generateFallbackResponse\<close> returns the message of the first rule that matches the
  lowercased text, in the order high risk, medium risk, help-seeking, leaving, self-blame,
  children, default; the seven messages are pairwise different, so the text gets exactly
  one of them. A text that matches the leaving rule and the children rule, and no rule
  before them, gets the leaving message and not the children message.
\<close>

theorem generateFallbackResponse_priority:
  "generateFallbackResponse toLowerCase text =
     (if mentions highRiskWords (toLowerCase text) then highRiskResponse
      else if mentions mediumRiskWords (toLowerCase text) then mediumRiskResponse
      else if mentions (map units [''help'', ''what do i do'', ''what should i'']) (toLowerCase text)
        then helpResponse
      else if mentions (map units [''leave'', ''leaving'']) (toLowerCase text) then leavingResponse
      else if mentions (map units [''fault'', ''blame'', ''my fault'']) (toLowerCase text)
        then selfBlameResponse
      else if mentions (map units [''children'', ''kids'', ''child'']) (toLowerCase text)
        then childrenResponse
      else defaultResponse)
   \<and> distinct [highRiskResponse, mediumRiskResponse, helpResponse, leavingResponse,
                selfBlameResponse, childrenResponse, defaultResponse]
   \<and> (\<not> mentions highRiskWords (toLowerCase text) \<and> \<not> mentions mediumRiskWords (toLowerCase text)
        \<and> \<not> mentions (map units [''help'', ''what do i do'', ''what should i'']) (toLowerCase text)
        \<and> mentions (map units [''leave'', ''leaving'']) (toLowerCase text)
        \<and> mentions (map units [''children'', ''kids'', ''child'']) (toLowerCase text)
      \<longrightarrow> generateFallbackResponse toLowerCase text = leavingResponse
          \<and> generateFallbackResponse toLowerCase text \<noteq> childrenResponse)"
proof (intro conjI impI)
  show "distinct [highRiskResponse, mediumRiskResponse, helpResponse, leavingResponse,
                selfBlameResponse, childrenResponse, defaultResponse]"
    by (rule responses_distinct)
  show "generateFallbackResponse toLowerCase text =
     (if mentions highRiskWords (toLowerCase text) then highRiskResponse
      else if mentions mediumRiskWords (toLowerCase text) then mediumRiskResponse
      else if mentions (map units [''help'', ''what do i do'', ''what should i'']) (toLowerCase text)
        then helpResponse
      else if mentions (map units [''leave'', ''leaving'']) (toLowerCase text) then leavingResponse
      else if mentions (map units [''fault'', ''blame'', ''my fault'']) (toLowerCase text)
        then selfBlameResponse
      else if mentions (map units [''children'', ''kids'', ''child'']) (toLowerCase text)
        then childrenResponse
      else defaultResponse)"
    by (rule generateFallbackResponse_chain)
next
  assume a: "\<not> mentions highRiskWords (toLowerCase text) \<and> \<not> mentions mediumRiskWords (toLowerCase text)
        \<and> \<not> mentions (map units [''help'', ''what do i do'', ''what should i'']) (toLowerCase text)
        \<and> mentions (map units [''leave'', ''leaving'']) (toLowerCase text)
        \<and> mentions (map units [''children'', ''kids'', ''child'']) (toLowerCase text)"
  then show l: "generateFallbackResponse toLowerCase text = leavingResponse"
    by (simp only: generateFallbackResponse_chain if_True if_False)
  from responses_distinct have "leavingResponse \<noteq> childrenResponse" by simp
  with l show "generateFallbackResponse toLowerCase text \<noteq> childrenResponse" by simp
qed


theorem generateFallbackResponse_priority_witness:
  "\<not> mentions highRiskWords (sampleToLowerCase (units ''I am LEAVING with my Children''))
   \<and> \<not> mentions mediumRiskWords (sampleToLowerCase (units ''I am LEAVING with my Children''))
   \<and> \<not> mentions (map units [''help'', ''what do i do'', ''what should i''])
          (sampleToLowerCase (units ''I am LEAVING with my Children''))
   \<and> \<not> mentions (map units [''leave'', ''leaving'']) (units ''I am LEAVING with my Children'')
   \<and> mentions (map units [''leave'', ''leaving''])
        (sampleToLowerCase (units ''I am LEAVING with my Children''))
   \<and> mentions (map units [''children'', ''kids'', ''child''])
        (sampleToLowerCase (units ''I am LEAVING with my Children''))
   \<and> generateFallbackResponse sampleToLowerCase (units ''I am LEAVING with my Children'')
        = leavingResponse
   \<and> generateFallbackResponse sampleToLowerCase (units ''I am LEAVING with my Children'')
        \<noteq> childrenResponse
   \<and> generateFallbackResponse sampleToLowerCase (units ''what should '' @ [0x130]) = helpResponse"
proof -
  let ?t = "sampleToLowerCase (units ''I am LEAVING with my Children'')"
  let ?u = "sampleToLowerCase (units ''what should '' @ [0x130])"
  have 1: "\<not> mentions highRiskWords ?t" unfolding mentions_exec by code_simp
  have 2: "\<not> mentions mediumRiskWords ?t" unfolding mentions_exec by code_simp
  have 3: "\<not> mentions (map units [''help'', ''what do i do'', ''what should i'']) ?t"
    unfolding mentions_exec by code_simp
  have 4: "mentions (map units [''leave'', ''leaving'']) ?t" unfolding mentions_exec by code_simp
  have 5: "mentions (map units [''children'', ''kids'', ''child'']) ?t"
    unfolding mentions_exec by code_simp
  have 6: "\<not> mentions (map units [''leave'', ''leaving'']) (units ''I am LEAVING with my Children'')"
    unfolding mentions_exec by code_simp
  have 7: "\<not> mentions highRiskWords ?u" unfolding mentions_exec by code_simp
  have 8: "\<not> mentions mediumRiskWords ?u" unfolding mentions_exec by code_simp
  have 9: "mentions (map units [''help'', ''what do i do'', ''what should i'']) ?u"
    unfolding mentions_exec by code_simp
  note T = generateFallbackResponse_priority
    [of sampleToLowerCase "units ''I am LEAVING with my Children''"]
  from T 1 2 3 4 5
  have a: "generateFallbackResponse sampleToLowerCase (units ''I am LEAVING with my Children'')
        = leavingResponse
    \<and> generateFallbackResponse sampleToLowerCase (units ''I am LEAVING with my Children'')
        \<noteq> childrenResponse"
    by blast
  note U = generateFallbackResponse_priority
    [of sampleToLowerCase "units ''what should '' @ [0x130]", THEN conjunct1]
  from U 7 8 9
  have b: "generateFallbackResponse sampleToLowerCase (units ''what should '' @ [0x130]) = helpResponse"
    by (simp only: if_True if_False)
  from 1 2 3 4 5 6 a b show ?thesis by blast
qed

section \<open>Verification of the format negotiation\<close>

lemma firstSupportedOr_none:
  "\<forall>t \<in> set ts. \<not> supp t \<Longrightarrow> firstSupportedOr supp ts = ''audio/webm''"
  by (induction ts) auto

lemma firstSupportedOr_first:
  "i < length ts \<Longrightarrow> supp (ts ! i) \<Longrightarrow> \<forall>j < i. \<not> supp (ts ! j) \<Longrightarrow> firstSupportedOr supp ts = ts ! i"
proof (induction ts arbitrary: i)
  case Nil
  then show ?case by simp
next
  case (Cons t ts)
  show ?case
  proof (cases i)
    case 0
    with Cons.prems show ?thesis by simp
  next
    case (Suc k)
    with Cons.prems have "\<not> supp t" by auto
    moreover from Suc Cons.prems have "firstSupportedOr supp ts = ts ! k"
      by (intro Cons.IH) auto
    ultimately show ?thesis using Suc by simp
  qed
qed

text \<open>
  C9. Whatever the runtime answers about the media types, \<open>getSupportedMimeType\<close>
  returns the first type of the preference list that the runtime supports (the type at a
  position whose earlier positions are all unsupported), and the default
  \<^verbatim>\<open>audio/webm\<close> when the runtime supports none of the list.
\<close>

theorem getSupportedMimeType_first_or_default:
  "(\<forall>i < length mimeTypes. supp (mimeTypes ! i) \<and> (\<forall>j < i. \<not> supp (mimeTypes ! j))
       \<longrightarrow> getSupportedMimeType supp = mimeTypes ! i)
   \<and> ((\<forall>t \<in> set mimeTypes. \<not> supp t) \<longrightarrow> getSupportedMimeType supp = ''audio/webm'')"
  unfolding getSupportedMimeType_def
  using firstSupportedOr_first [of _ mimeTypes supp] firstSupportedOr_none [of mimeTypes supp]
  by blast

theorem getSupportedMimeType_first_or_default_witness:
  "getSupportedMimeType (\<lambda>t. t = ''audio/ogg;codecs=opus'' \<or> t = ''audio/mp4'') = ''audio/ogg;codecs=opus''
   \<and> getSupportedMimeType (\<lambda>t. False) = ''audio/webm''"
proof -
  let ?spt = "\<lambda>t. t = ''audio/ogg;codecs=opus'' \<or> t = ''audio/mp4''"
  have a: "(2::nat) < length mimeTypes" by (simp add: mimeTypes_def)
  have b: "?spt (mimeTypes ! 2) \<and> (\<forall>j < 2. \<not> ?spt (mimeTypes ! j))"
    by (auto simp: mimeTypes_def dest!: less_2_cases)
  have c: "mimeTypes ! 2 = ''audio/ogg;codecs=opus''" by (simp add: mimeTypes_def)
  have e: "getSupportedMimeType ?spt = mimeTypes ! 2"
    by (rule getSupportedMimeType_first_or_default [of ?spt, THEN conjunct1, rule_format, OF a b])
  from e c have 1: "getSupportedMimeType ?spt = ''audio/ogg;codecs=opus''" by (rule trans)
  have 2: "getSupportedMimeType (\<lambda>t. False) = ''audio/webm''"
    using getSupportedMimeType_first_or_default [of "\<lambda>t. False", THEN conjunct2] by simp
  from 1 2 show ?thesis by (rule conjI)
qed

section \<open>Verification of the recorder\<close>

subsection \<open>What the handlers do\<close>

lemmas setters = setIsRecording_def setIsPaused_def setDuration_def setAudioUrl_def
  setAudioBlob_def setError_def setIsPlaying_def

lemmas browser = setInterval_def clearInterval_def createObjectURL_def revokeObjectURL_def
  stopTracks_def

lemma tick_hooks:
  "tick s = s\<lparr>hooks := (hooks s)\<lparr>duration := duration (hooks s) + length (intervals s)\<rparr>\<rparr>"
proof -
  have "fold (\<lambda>t. onInterval) ts s = s\<lparr>hooks := (hooks s)\<lparr>duration := duration (hooks s) + length ts\<rparr>\<rparr>" for ts
    by (induction ts arbitrary: s) (simp_all add: onInterval_def setDuration_def)
  then show ?thesis by (simp add: tick_def)
qed

lemma startRecording_unsupported:
  "\<not> isAudioRecordingSupported rt \<Longrightarrow>
   startRecording rt s = s\<lparr>hooks := (hooks s)\<lparr>error := Some unsupportedMessage\<rparr>\<rparr>"
  by (simp add: startRecording_def setError_def)

lemma startRecording_supported:
  "isAudioRecordingSupported rt \<Longrightarrow>
   startRecording rt s =
     s\<lparr>hooks := (hooks s)\<lparr>error := None\<rparr>,
       deviceRequests := deviceRequests s + 1,
       pendingRequests := pendingRequests s + 1\<rparr>"
  by (simp add: startRecording_def setError_def getUserMedia_def)

lemma startRecording_resume_rejected:
  "startRecording_resume rt (Rejected e) s =
     s\<lparr>pendingRequests := pendingRequests s - 1,
       hooks := (hooks s)\<lparr>error := Some (rejectionMessage e)\<rparr>\<rparr>"
  by (cases e) (simp_all add: startRecording_resume_def requestMicrophonePermission_settle_def
      startRecording_catch_def setError_def rejectionMessage_def Let_def)

lemma startRecording_resume_resolved:
  "newMediaRecorder rt (negotiated rt) = None \<Longrightarrow> recorderStart rt = None \<Longrightarrow>
   startRecording_resume rt Resolved s =
     s\<lparr>pendingRequests := pendingRequests s - 1,
       liveStreams := liveStreams s @ [nextHandle s],
       streamRef := Some (nextHandle s),
       supersededRecorders :=
         supersededRecorders s @ (case mediaRecorderRef s of Some old \<Rightarrow> [old] | None \<Rightarrow> []),
       mediaRecorderRef :=
         Some \<lparr>mrStream = nextHandle s, mrMimeType = negotiated rt, mrState = RecordingS\<rparr>,
       audioChunksRef := [],
       hooks := (hooks s)\<lparr>isRecording := True\<rparr>,
       intervals := intervals s @ [nextHandle s + 1],
       timerRef := Some (nextHandle s + 1),
       nextHandle := nextHandle s + 2\<rparr>"
  by (simp add: startRecording_resume_def requestMicrophonePermission_settle_def setIsRecording_def
      startTimer_def setInterval_def mr_start_def negotiated_def Let_def)

lemma startRecording_resume_constructor_throws:
  "newMediaRecorder rt (negotiated rt) = Some err \<Longrightarrow>
   startRecording_resume rt Resolved s =
     s\<lparr>pendingRequests := pendingRequests s - 1,
       liveStreams := liveStreams s @ [nextHandle s],
       nextHandle := nextHandle s + 1,
       streamRef := Some (nextHandle s),
       hooks := (hooks s)\<lparr>error := Some (case err of ErrorObj m \<Rightarrow> m
                                             | OtherValue \<Rightarrow> ''Failed to start recording'')\<rparr>\<rparr>"
  by (simp add: startRecording_resume_def requestMicrophonePermission_settle_def
      startRecording_catch_def setError_def negotiated_def Let_def)

lemma startRecording_resume_start_throws:
  "newMediaRecorder rt (negotiated rt) = None \<Longrightarrow> recorderStart rt = Some err \<Longrightarrow>
   startRecording_resume rt Resolved s =
     s\<lparr>pendingRequests := pendingRequests s - 1,
       liveStreams := liveStreams s @ [nextHandle s],
       nextHandle := nextHandle s + 1,
       streamRef := Some (nextHandle s),
       supersededRecorders :=
         supersededRecorders s @ (case mediaRecorderRef s of Some old \<Rightarrow> [old] | None \<Rightarrow> []),
       mediaRecorderRef :=
         Some \<lparr>mrStream = nextHandle s, mrMimeType = negotiated rt, mrState = Inactive\<rparr>,
       audioChunksRef := [],
       hooks := (hooks s)\<lparr>error := Some (case err of ErrorObj m \<Rightarrow> m
                                             | OtherValue \<Rightarrow> ''Failed to start recording'')\<rparr>\<rparr>"
  by (simp add: startRecording_resume_def requestMicrophonePermission_settle_def
      startRecording_catch_def setError_def negotiated_def Let_def)

lemma startRecording_resume_cases:
  obtains (rejected) e where "res = Rejected e"
  | (constructor_throws) err where "res = Resolved" "newMediaRecorder rt (negotiated rt) = Some err"
  | (start_throws) err where "res = Resolved" "newMediaRecorder rt (negotiated rt) = None"
      "recorderStart rt = Some err"
  | (started) "res = Resolved" "newMediaRecorder rt (negotiated rt) = None" "recorderStart rt = None"
  by (cases res; cases "newMediaRecorder rt (negotiated rt)"; cases "recorderStart rt") auto

lemma startRecording_resume_artifact:
  "audioBlob (hooks (startRecording_resume rt res s)) = audioBlob (hooks s)"
  "duration (hooks (startRecording_resume rt res s)) = duration (hooks s)"
  by (rule startRecording_resume_cases [where res = res and rt = rt];
      simp add: startRecording_resume_rejected startRecording_resume_constructor_throws
        startRecording_resume_start_throws startRecording_resume_resolved)+

lemma stopRecording_noop:
  "mediaRecorderRef s = None \<or> \<not> isRecording r \<Longrightarrow> stopRecording r s = s"
  by (auto simp: stopRecording_def)

lemma stopRecording_active:
  "mediaRecorderRef s = Some mr \<Longrightarrow> isRecording r \<Longrightarrow>
   stopRecording r s =
     s\<lparr>mediaRecorderRef := Some (mr\<lparr>mrState := Inactive\<rparr>),
       objectUrls := objectUrls s @ [nextHandle s],
       nextHandle := nextHandle s + 1,
       hooks := (hooks s)\<lparr>audioBlob := Some (newBlob (audioChunksRef s) (mrMimeType mr)),
                           audioUrl := Some (nextHandle s),
                           isRecording := False, isPaused := False\<rparr>,
       liveStreams := (case streamRef s of Some st \<Rightarrow> removeAll st (liveStreams s)
                       | None \<Rightarrow> liveStreams s),
       intervals := (case timerRef s of Some t \<Rightarrow> removeAll t (intervals s) | None \<Rightarrow> intervals s),
       timerRef := None\<rparr>"
  by (simp add: stopRecording_def mr_stop_def onstop_def setters browser stopTimer_def Let_def
      split: option.splits)

lemma stopRecording_cases:
  obtains (noop) "stopRecording r s = s" "mediaRecorderRef s = None \<or> \<not> isRecording r"
  | (active) mr where "mediaRecorderRef s = Some mr" "isRecording r"
proof (cases "mediaRecorderRef s = None \<or> \<not> isRecording r")
  case True
  then show ?thesis using noop by (simp add: stopRecording_noop)
next
  case False
  then show ?thesis using active by auto
qed

lemma pauseRecording_noop:
  "mediaRecorderRef s = None \<or> \<not> isRecording r \<Longrightarrow> pauseRecording r s = s"
  by (auto simp: pauseRecording_def)

lemma pauseRecording_pause:
  "mediaRecorderRef s = Some mr \<Longrightarrow> isRecording r \<Longrightarrow> \<not> isPaused r \<Longrightarrow>
   pauseRecording r s =
     s\<lparr>mediaRecorderRef := Some (mr\<lparr>mrState := PausedS\<rparr>),
       intervals := (case timerRef s of Some t \<Rightarrow> removeAll t (intervals s) | None \<Rightarrow> intervals s),
       timerRef := None,
       hooks := (hooks s)\<lparr>isPaused := True\<rparr>\<rparr>"
  by (simp add: pauseRecording_def mr_pause_def stopTimer_def clearInterval_def setIsPaused_def
      split: option.splits)

lemma pauseRecording_resume:
  "mediaRecorderRef s = Some mr \<Longrightarrow> isRecording r \<Longrightarrow> isPaused r \<Longrightarrow>
   pauseRecording r s =
     s\<lparr>mediaRecorderRef := Some (mr\<lparr>mrState := RecordingS\<rparr>),
       intervals := intervals s @ [nextHandle s],
       nextHandle := nextHandle s + 1,
       timerRef := Some (nextHandle s),
       hooks := (hooks s)\<lparr>isPaused := False\<rparr>\<rparr>"
  by (simp add: pauseRecording_def mr_resume_def startTimer_def setInterval_def setIsPaused_def)

lemma pauseRecording_cases:
  obtains (noop) "pauseRecording r s = s" "mediaRecorderRef s = None \<or> \<not> isRecording r"
  | (pause) mr where "mediaRecorderRef s = Some mr" "isRecording r" "\<not> isPaused r"
  | (resume) mr where "mediaRecorderRef s = Some mr" "isRecording r" "isPaused r"
proof (cases "mediaRecorderRef s = None \<or> \<not> isRecording r")
  case True
  then show ?thesis using noop by (simp add: pauseRecording_noop)
next
  case False
  then show ?thesis using pause resume by (cases "isPaused r") auto
qed

lemma unmount_eq:
  "unmount s =
    s\<lparr>liveStreams := (case streamRef s of Some st \<Rightarrow> removeAll st (liveStreams s)
                       | None \<Rightarrow> liveStreams s),
       intervals := (case timerRef s of Some t \<Rightarrow> removeAll t (intervals s) | None \<Rightarrow> intervals s),
       mounted := False\<rparr>"
  by (simp add: unmount_def cleanup_def initialHooks_def stopRecording_def browser Let_def
      split: option.splits)

lemma handleCancel_eq:
  "handleCancel r s =
    (let s1 = stopRecording r s in
     s1\<lparr>objectUrls := (case audioUrl r of Some u \<Rightarrow> removeAll u (objectUrls s1)
                        | None \<Rightarrow> objectUrls s1),
        cancelCalls := cancelCalls s1 + 1\<rparr>)"
  by (simp add: handleCancel_def revokeObjectURL_def Let_def split: option.splits)

lemma handleSend_eq:
  "handleSend r s =
    (case audioBlob r of
       Some b \<Rightarrow> s\<lparr>sentVoice := sentVoice s @ [b],
                    objectUrls := (case audioUrl r of Some u \<Rightarrow> removeAll u (objectUrls s)
                                   | None \<Rightarrow> objectUrls s)\<rparr>
     | None \<Rightarrow> s)"
  by (simp add: handleSend_def revokeObjectURL_def Let_def split: option.splits)

lemma hooks_unmount: "hooks (unmount s) = hooks s"
  by (simp add: unmount_eq)

lemma hooks_handleSend: "hooks (handleSend r s) = hooks s"
  by (simp add: handleSend_eq split: option.splits)

lemma hooks_handleCancel: "hooks (handleCancel r s) = hooks (stopRecording r s)"
  by (simp add: handleCancel_eq Let_def)

lemma hooks_ondataavailable: "hooks (ondataavailable d s) = hooks s"
  by (simp add: ondataavailable_def)

subsection \<open>The invariant of all reachable states\<close>

lemma inv_init: "inv rt initialRecorder"
  by (simp add: inv_def initialRecorder_def initialHooks_def)

lemma inv_tick: "inv rt s \<Longrightarrow> inv rt (tick s)"
  by (simp add: tick_hooks inv_def)

lemma inv_data: "inv rt s \<Longrightarrow> inv rt (ondataavailable d s)"
  by (simp add: ondataavailable_def inv_def)

lemma inv_start: "inv rt s \<Longrightarrow> inv rt (startRecording rt s)"
  by (cases "isAudioRecordingSupported rt")
     (simp_all add: startRecording_unsupported startRecording_supported inv_def)

lemma inv_resume: "inv rt s \<Longrightarrow> inv rt (startRecording_resume rt res s)"
  by (rule startRecording_resume_cases [where res = res and rt = rt])
     (auto simp: startRecording_resume_rejected startRecording_resume_constructor_throws
       startRecording_resume_start_throws startRecording_resume_resolved inv_def)

lemma inv_stop: "inv rt s \<Longrightarrow> inv rt (stopRecording r s)"
  by (rule stopRecording_cases [where r = r and s = s])
     (simp_all add: stopRecording_active inv_def)

lemma inv_pause: "inv rt s \<Longrightarrow> inv rt (pauseRecording r s)"
  by (rule pauseRecording_cases [where r = r and s = s])
     (auto simp: pauseRecording_pause pauseRecording_resume inv_def)

lemma inv_play: "inv rt s \<Longrightarrow> inv rt (playAudio r s)"
  by (simp add: playAudio_def setIsPlaying_def inv_def)

lemma inv_ended: "inv rt s \<Longrightarrow> inv rt (setIsPlaying False s)"
  by (simp add: setIsPlaying_def inv_def)

lemma inv_unmount: "inv rt s \<Longrightarrow> inv rt (unmount s)"
  by (auto simp: unmount_eq inv_def)

lemma inv_handleCancel: "inv rt s \<Longrightarrow> inv rt (handleCancel (hooks s) s)"
proof (rule stopRecording_cases [where r = "hooks s" and s = s])
  assume "inv rt s" "stopRecording (hooks s) s = s"
  then show ?thesis by (auto simp: handleCancel_eq inv_def Let_def split: option.splits)
next
  fix mr assume i: "inv rt s" and mr: "mediaRecorderRef s = Some mr" and r: "isRecording (hooks s)"
  then show ?thesis
    by (auto simp: handleCancel_eq stopRecording_active [OF mr r] inv_def Let_def split: option.splits)
qed

lemma inv_handleSend: "inv rt s \<Longrightarrow> inv rt (handleSend (hooks s) s)"
  by (auto simp: handleSend_eq inv_def split: option.splits)

lemma inv_fire: "inv rt s \<Longrightarrow> inv rt (fire rt e s)"
  by (cases e) (simp_all add: inv_start inv_resume inv_stop inv_pause inv_play inv_ended
      inv_unmount inv_handleCancel inv_handleSend inv_tick inv_data)

lemma reachable_inv: "reachable rt s \<Longrightarrow> inv rt s"
  by (induction rule: reachable.induct) (simp_all add: inv_init inv_fire)

subsection \<open>Sample states\<close>

lemma sampleRuntime_supported: "isAudioRecordingSupported sampleRuntime"
  by (simp add: isAudioRecordingSupported_def sampleRuntime_def)

lemma sampleRuntime_works:
  "newMediaRecorder sampleRuntime t = None" "recorderStart sampleRuntime = None"
  by (simp_all add: sampleRuntime_def)

lemmas sampleRuntime_granted =
  startRecording_resume_resolved [OF sampleRuntime_works(1) sampleRuntime_works(2)]

lemma sampleRuntime_negotiated: "negotiated sampleRuntime = ''audio/mp4''"
  by (simp add: negotiated_def sampleRuntime_def getSupportedMimeType_def mimeTypes_def)

lemma recordingState_eq:
  "recordingState =
    \<lparr>hooks = initialHooks\<lparr>isRecording := True\<rparr>,
     mediaRecorderRef = Some \<lparr>mrStream = 1, mrMimeType = ''audio/mp4'', mrState = RecordingS\<rparr>,
     audioChunksRef = [], streamRef = Some 1, timerRef = Some 2, intervals = [2],
     liveStreams = [1], objectUrls = [], nextHandle = 3, deviceRequests = 1,
     pendingRequests = 0, supersededRecorders = [], sentVoice = [],
     cancelCalls = 0, mounted = True\<rparr>"
  by (simp add: recordingState_def startRecording_supported [OF sampleRuntime_supported]
      sampleRuntime_granted sampleRuntime_negotiated initialRecorder_def initialHooks_def)

lemma startPending_reachable: "reachable rt (fire rt ClickStart initialRecorder)"
  by (rule reachable_step [OF reachable_init])
     (simp add: initialRecorder_def initialHooks_def view_def)

lemma startPending_pending:
  "isAudioRecordingSupported rt \<Longrightarrow> pendingRequests (fire rt ClickStart initialRecorder) = 1"
  by (simp add: startRecording_supported initialRecorder_def)

lemma recordingState_reachable: "reachable sampleRuntime recordingState"
  unfolding recordingState_def
  by (rule reachable_step [OF startPending_reachable])
     (simp add: startPending_pending [OF sampleRuntime_supported, simplified])

lemma recordingState_phase: "phase recordingState = Recording"
  by (simp add: recordingState_eq phase_def initialHooks_def)

lemma pausedState_eq:
  "pausedState =
    \<lparr>hooks = initialHooks\<lparr>isRecording := True, isPaused := True\<rparr>,
     mediaRecorderRef = Some \<lparr>mrStream = 1, mrMimeType = ''audio/mp4'', mrState = PausedS\<rparr>,
     audioChunksRef = [], streamRef = Some 1, timerRef = None, intervals = [],
     liveStreams = [1], objectUrls = [], nextHandle = 3, deviceRequests = 1,
     pendingRequests = 0, supersededRecorders = [], sentVoice = [],
     cancelCalls = 0, mounted = True\<rparr>"
  by (simp add: pausedState_def recordingState_eq pauseRecording_def mr_pause_def stopTimer_def
      clearInterval_def setIsPaused_def initialHooks_def)

lemma pausedState_reachable: "reachable sampleRuntime pausedState"
  unfolding pausedState_def
  by (rule reachable_step [OF recordingState_reachable])
     (simp add: recordingState_eq initialHooks_def view_def)

lemma pausedState_phase: "phase pausedState = Paused"
  by (simp add: pausedState_eq phase_def initialHooks_def)

lemma readyState_eq:
  "readyState =
    \<lparr>hooks = initialHooks\<lparr>audioUrl := Some 3,
            audioBlob := Some \<lparr>bdata = [], btype = ''audio/mp4''\<rparr>\<rparr>,
     mediaRecorderRef = Some \<lparr>mrStream = 1, mrMimeType = ''audio/mp4'', mrState = Inactive\<rparr>,
     audioChunksRef = [], streamRef = Some 1, timerRef = None, intervals = [],
     liveStreams = [], objectUrls = [3], nextHandle = 4, deviceRequests = 1,
     pendingRequests = 0, supersededRecorders = [], sentVoice = [],
     cancelCalls = 0, mounted = True\<rparr>"
  by (simp add: readyState_def recordingState_eq stopRecording_def mr_stop_def onstop_def
      stopTimer_def setters browser newBlob_def initialHooks_def Let_def)

lemma readyState_reachable: "reachable sampleRuntime readyState"
  unfolding readyState_def
  by (rule reachable_step [OF recordingState_reachable])
     (simp add: recordingState_eq initialHooks_def view_def)

lemma doubleStartState_eq:
  "doubleStartState =
    \<lparr>hooks = initialHooks\<lparr>isRecording := True\<rparr>,
     mediaRecorderRef = Some \<lparr>mrStream = 3, mrMimeType = ''audio/mp4'', mrState = RecordingS\<rparr>,
     audioChunksRef = [], streamRef = Some 3, timerRef = Some 4, intervals = [2, 4],
     liveStreams = [1, 3], objectUrls = [], nextHandle = 5, deviceRequests = 2,
     pendingRequests = 0,
     supersededRecorders = [\<lparr>mrStream = 1, mrMimeType = ''audio/mp4'', mrState = RecordingS\<rparr>],
     sentVoice = [], cancelCalls = 0, mounted = True\<rparr>"
  by (simp add: doubleStartState_def startRecording_supported [OF sampleRuntime_supported]
      sampleRuntime_granted sampleRuntime_negotiated initialRecorder_def initialHooks_def)

lemma doubleStart_run: "run sampleRuntime doubleStart initialRecorder = Some doubleStartState"
  by (simp add: doubleStart_def doubleStartState_def startRecording_supported [OF sampleRuntime_supported]
      sampleRuntime_granted initialRecorder_def initialHooks_def view_def)

lemma run_append:
  "run rt (es @ es') s = (case run rt es s of None \<Rightarrow> None | Some s' \<Rightarrow> run rt es' s')"
  by (induction es arbitrary: s) (simp_all del: fire.simps)

lemma run_reachable: "reachable rt s \<Longrightarrow> run rt es s = Some s' \<Longrightarrow> reachable rt s'"
proof (induction es arbitrary: s)
  case Nil
  then show ?case by simp
next
  case (Cons e es)
  from Cons.prems(2) have en: "enabled e s" and r: "run rt es (fire rt e s) = Some s'"
    by (auto simp del: fire.simps split: if_splits)
  from Cons.prems(1) en have "reachable rt (fire rt e s)" by (rule reachable_step)
  then show ?case using r by (rule Cons.IH)
qed

lemma doubleStartState_reachable: "reachable sampleRuntime doubleStartState"
  by (rule run_reachable [OF reachable_init doubleStart_run])

subsection \<open>Finalization\<close>

lemma audioBlob_startRecording: "audioBlob (hooks (startRecording rt s)) = audioBlob (hooks s)"
  by (cases "isAudioRecordingSupported rt")
     (simp_all add: startRecording_unsupported startRecording_supported)

lemma audioBlob_startRecording_resume:
  "audioBlob (hooks (startRecording_resume rt res s)) = audioBlob (hooks s)"
  by (rule startRecording_resume_artifact)

lemma audioBlob_pauseRecording: "audioBlob (hooks (pauseRecording r s)) = audioBlob (hooks s)"
  by (rule pauseRecording_cases [where r = r and s = s])
     (simp_all add: pauseRecording_pause pauseRecording_resume)

lemma audioBlob_fire_other:
  "e \<noteq> ClickStop \<Longrightarrow> e \<noteq> ClickCancel \<Longrightarrow> audioBlob (hooks (fire rt e s)) = audioBlob (hooks s)"
  by (cases e) (simp_all add: audioBlob_startRecording audioBlob_startRecording_resume
      audioBlob_pauseRecording hooks_unmount hooks_handleSend hooks_ondataavailable playAudio_def
      setIsPlaying_def tick_hooks)

lemma chunks_fold:
  "audioChunksRef (fold ondataavailable ds s) = audioChunksRef s @ filter (\<lambda>d. blob_size d > 0) ds"
  by (induction ds arbitrary: s) (simp_all add: ondataavailable_def)

lemma recording_facts:
  assumes "reachable rt s" "phase s = Recording \<or> phase s = Paused"
  shows "mounted s" "isRecording (hooks s)"
    "\<exists>mr stream. mediaRecorderRef s = Some mr \<and> mrMimeType mr = negotiated rt
       \<and> mrState mr \<noteq> Inactive \<and> streamRef s = Some stream \<and> stream \<in> set (liveStreams s)"
proof -
  from assms(2) show m: "mounted s" and r: "isRecording (hooks s)"
    by (auto simp: phase_def split: if_splits)
  from assms(1) have "inv rt s" by (rule reachable_inv)
  with m r show "\<exists>mr stream. mediaRecorderRef s = Some mr \<and> mrMimeType mr = negotiated rt
       \<and> mrState mr \<noteq> Inactive \<and> streamRef s = Some stream \<and> stream \<in> set (liveStreams s)"
    by (simp add: inv_def)
qed

lemma stop_click:
  assumes "reachable rt s" "phase s = Recording \<or> phase s = Paused"
  shows "audioBlob (hooks (fire rt ClickStop s)) =
           Some \<lparr>bdata = concat (map bdata (audioChunksRef s)),
                 btype = getSupportedMimeType (isTypeSupported rt)\<rparr>"
    and "\<exists>stream. streamRef s = Some stream \<and> stream \<in> set (liveStreams s)
           \<and> stream \<notin> set (liveStreams (fire rt ClickStop s))"
    and "phase (fire rt ClickStop s) = Ready"
proof -
  note f = recording_facts [OF assms]
  from f(3) obtain stream mr where st: "streamRef s = Some stream" "stream \<in> set (liveStreams s)"
    and mr: "mediaRecorderRef s = Some mr" and mt: "mrMimeType mr = negotiated rt"
    by auto
  from mt show "audioBlob (hooks (fire rt ClickStop s)) =
           Some \<lparr>bdata = concat (map bdata (audioChunksRef s)),
                 btype = getSupportedMimeType (isTypeSupported rt)\<rparr>"
    by (simp add: stopRecording_active [OF mr f(2)] newBlob_def negotiated_def)
  from st show "\<exists>stream. streamRef s = Some stream \<and> stream \<in> set (liveStreams s)
           \<and> stream \<notin> set (liveStreams (fire rt ClickStop s))"
    by (simp add: stopRecording_active [OF mr f(2)])
  from f(1) show "phase (fire rt ClickStop s) = Ready"
    by (simp add: stopRecording_active [OF mr f(2)] phase_def)
qed

lemma deliveries:
  assumes "reachable rt s" "phase s = Recording \<or> phase s = Paused"
  shows "reachable rt (fold ondataavailable ds s) \<and> phase (fold ondataavailable ds s) = phase s"
  using assms
proof (induction ds arbitrary: s)
  case Nil
  then show ?case by simp
next
  case (Cons d ds)
  note f = recording_facts [OF Cons.prems]
  from f(3) have "enabled (DataAvailable d) s"
    by (auto simp: anyRecorderActive_def recorderActive_def)
  with Cons.prems(1) have "reachable rt (fire rt (DataAvailable d) s)" by (rule reachable_step)
  then have r: "reachable rt (ondataavailable d s)" by simp
  have p: "phase (ondataavailable d s) = phase s" by (simp add: phase_def ondataavailable_def)
  with Cons.prems(2) have "phase (ondataavailable d s) = Recording \<or> phase (ondataavailable d s) = Paused"
    by simp
  from Cons.IH [OF r this] p show ?case by simp
qed

subsection \<open>Failing starts\<close>

lemma start_messages_distinct:
  "distinct [unsupportedMessage, permissionDeniedMessage, noMicrophoneMessage, accessFailedMessage]"
  by (simp add: unsupportedMessage_def permissionDeniedMessage_def noMicrophoneMessage_def
      accessFailedMessage_def)

lemma permission_in_message: "occurs_in ''permission'' permissionDeniedMessage"
proof -
  have "includes_str permissionDeniedMessage ''permission''"
    unfolding permissionDeniedMessage_def by code_simp
  then show ?thesis by (simp add: includes_str_occurs)
qed

lemma startRecording_resume_rejected_message:
  "startRecording_resume rt (Rejected e) s =
     s\<lparr>pendingRequests := pendingRequests s - 1,
       hooks := (hooks s)\<lparr>error := Some
         (if e = NamedError ''NotAllowedError'' then permissionDeniedMessage
          else if e = NamedError ''NotFoundError'' then noMicrophoneMessage
          else accessFailedMessage)\<rparr>\<rparr>"
  by (simp only: startRecording_resume_rejected rejectionMessage_def)

lemma noEncoderRuntime_supported: "isAudioRecordingSupported noEncoderRuntime"
  by (simp add: isAudioRecordingSupported_def noEncoderRuntime_def sampleRuntime_def)

lemma noEncoderRuntime_negotiated: "negotiated noEncoderRuntime = ''audio/webm''"
  by (simp add: negotiated_def noEncoderRuntime_def getSupportedMimeType_def mimeTypes_def)

lemma noEncoderRuntime_throws:
  "newMediaRecorder noEncoderRuntime (negotiated noEncoderRuntime) = Some (ErrorObj notSupportedMessage)"
  by (simp add: noEncoderRuntime_def)

lemmas noEncoderRuntime_granted =
  startRecording_resume_constructor_throws [OF noEncoderRuntime_throws]

lemma doubleStart_paused_eq:
  "fire sampleRuntime ClickPause doubleStartState =
     doubleStartState\<lparr>
       mediaRecorderRef := Some \<lparr>mrStream = 3, mrMimeType = ''audio/mp4'', mrState = PausedS\<rparr>,
       intervals := [2], timerRef := None,
       hooks := initialHooks\<lparr>isRecording := True, isPaused := True\<rparr>\<rparr>"
  by (simp add: doubleStartState_eq pauseRecording_def mr_pause_def stopTimer_def
      clearInterval_def setIsPaused_def initialHooks_def)

lemmas eval_defs = startRecording_supported [OF sampleRuntime_supported]
  sampleRuntime_granted sampleRuntime_negotiated initialRecorder_def initialHooks_def
  view_def phase_def anyRecorderActive_def recorderActive_def ondataavailable_def blob_size_def
  stopRecording_def mr_stop_def onstop_def stopTimer_def setters browser newBlob_def Let_def
  unmount_eq handleCancel_eq holdsNothing_def

subsection \<open>Sessions that are started once\<close>

lemma invOnce_unmounted: "\<not> mounted s \<Longrightarrow> invOnce rt s"
  by (simp add: invOnce_def)

lemma invOnce_init: "invOnce rt initialRecorder"
  by (simp add: invOnce_def initialRecorder_def initialHooks_def)

lemma invOnce_tick: "invOnce rt s \<Longrightarrow> invOnce rt (tick s)"
  by (auto simp: tick_hooks invOnce_def split: if_splits)

lemma invOnce_data: "invOnce rt s \<Longrightarrow> invOnce rt (ondataavailable d s)"
  by (auto simp: ondataavailable_def invOnce_def split: if_splits)

lemma invOnce_start:
  "invOnce rt s \<Longrightarrow> view (hooks s) = StartView \<Longrightarrow> pendingRequests s = 0
     \<Longrightarrow> invOnce rt (startRecording rt s)"
  by (cases "isAudioRecordingSupported rt")
     (auto simp: startRecording_unsupported startRecording_supported invOnce_def view_def
       split: if_splits)

lemma invOnce_resume:
  "recorderWorks rt \<Longrightarrow> invOnce rt s \<Longrightarrow> pendingRequests s > 0
     \<Longrightarrow> invOnce rt (startRecording_resume rt res s)"
  by (cases res)
     (auto simp: startRecording_resume_resolved startRecording_resume_rejected invOnce_def
       recorderWorks_def split: if_splits)

lemma invOnce_stop: "invOnce rt s \<Longrightarrow> invOnce rt (stopRecording (hooks s) s)"
proof (rule stopRecording_cases [where r = "hooks s" and s = s])
  assume "invOnce rt s" "stopRecording (hooks s) s = s"
  then show ?thesis by simp
next
  fix mr assume i: "invOnce rt s" and mr: "mediaRecorderRef s = Some mr" and r: "isRecording (hooks s)"
  then show ?thesis
    by (auto simp: stopRecording_active [OF mr r] invOnce_def split: if_splits)
qed

lemma invOnce_pause: "invOnce rt s \<Longrightarrow> invOnce rt (pauseRecording (hooks s) s)"
proof (rule pauseRecording_cases [where r = "hooks s" and s = s])
  assume "invOnce rt s" "pauseRecording (hooks s) s = s"
  then show ?thesis by simp
next
  fix mr assume i: "invOnce rt s" and mr: "mediaRecorderRef s = Some mr"
    and r: "isRecording (hooks s)" and p: "\<not> isPaused (hooks s)"
  then show ?thesis
    by (auto simp: pauseRecording_pause [OF mr r p] invOnce_def split: if_splits)
next
  fix mr assume i: "invOnce rt s" and mr: "mediaRecorderRef s = Some mr"
    and r: "isRecording (hooks s)" and p: "isPaused (hooks s)"
  then show ?thesis
    by (auto simp: pauseRecording_resume [OF mr r p] invOnce_def split: if_splits)
qed

lemma invOnce_play: "invOnce rt s \<Longrightarrow> invOnce rt (playAudio r s)"
  by (auto simp: playAudio_def setIsPlaying_def invOnce_def split: if_splits)

lemma invOnce_ended: "invOnce rt s \<Longrightarrow> invOnce rt (setIsPlaying False s)"
  by (auto simp: setIsPlaying_def invOnce_def split: if_splits)

lemma invOnce_unmount: "invOnce rt (unmount s)"
  by (rule invOnce_unmounted) (simp add: unmount_eq)

lemma invOnce_send: "invOnce rt s \<Longrightarrow> invOnce rt (fire rt ClickSend s)"
  by (auto simp: invOnce_unmount handleSend_def)

lemma invOnce_fire:
  "recorderWorks rt \<Longrightarrow> invOnce rt s \<Longrightarrow> enabled e s
     \<Longrightarrow> (e = ClickStart \<longrightarrow> pendingRequests s = 0) \<Longrightarrow> invOnce rt (fire rt e s)"
  by (cases e) (simp_all add: invOnce_start invOnce_resume invOnce_stop invOnce_pause invOnce_play
      invOnce_ended invOnce_unmount invOnce_send invOnce_tick invOnce_data del: fire.simps(7))

lemma reachableOnce_inv:
  assumes "recorderWorks rt" "reachableOnce rt s"
  shows "invOnce rt s"
  using assms(2,1)
  by (induction rule: reachableOnce.induct) (simp_all add: invOnce_init invOnce_fire del: fire.simps)

lemma reachableOnce_reachable: "reachableOnce rt s \<Longrightarrow> reachable rt s"
  by (induction rule: reachableOnce.induct) (auto intro: reachable.intros simp del: fire.simps)

lemma duration_fire: "e \<noteq> Tick \<Longrightarrow> duration (hooks (fire rt e s)) = duration (hooks s)"
proof (cases e)
  case ClickStart
  then show ?thesis
    by (cases "isAudioRecordingSupported rt")
       (simp_all add: startRecording_unsupported startRecording_supported)
next
  case (DeviceAnswer res)
  then show ?thesis by (simp add: startRecording_resume_artifact)
next
  case ClickPause
  then show ?thesis
    by (simp, rule_tac pauseRecording_cases [where r = "hooks s" and s = s])
       (simp_all add: pauseRecording_pause pauseRecording_resume)
next
  case ClickStop
  then show ?thesis
    by (simp, rule_tac stopRecording_cases [where r = "hooks s" and s = s])
       (simp_all add: stopRecording_active)
next
  case ClickCancel
  then show ?thesis
    by (simp add: hooks_unmount hooks_handleCancel,
        rule_tac stopRecording_cases [where r = "hooks s" and s = s])
       (simp_all add: stopRecording_active)
qed (simp_all add: hooks_unmount hooks_handleSend hooks_ondataavailable playAudio_def
      setIsPlaying_def)

lemma once_single_ticker:
  assumes "recorderWorks rt" "reachableOnce rt s" "mounted s"
  shows "length (intervals s) \<le> 1" "intervals s \<noteq> [] \<longleftrightarrow> phase s = Recording"
proof -
  from assms(1,2) have "invOnce rt s" by (rule reachableOnce_inv)
  with assms(3) show "length (intervals s) \<le> 1" "intervals s \<noteq> [] \<longleftrightarrow> phase s = Recording"
    by (auto simp: invOnce_def phase_def split: if_splits)
qed

lemma once_recording_tick:
  assumes "recorderWorks rt" "reachableOnce rt s" "phase s = Recording"
  shows "duration (hooks (fire rt Tick s)) = duration (hooks s) + 1"
proof -
  from assms(3) have m: "mounted s" by (auto simp: phase_def split: if_splits)
  from once_single_ticker [OF assms(1,2) m] assms(3) have "length (intervals s) = 1"
    by (cases "intervals s") auto
  then show ?thesis by (simp add: tick_hooks)
qed

lemma once_paused_frozen:
  assumes "recorderWorks rt" "reachableOnce rt s" "phase s = Paused"
  shows "duration (hooks (fire rt e s)) = duration (hooks s)"
proof (cases "e = Tick")
  case True
  from assms(3) have m: "mounted s" by (auto simp: phase_def split: if_splits)
  from once_single_ticker(2) [OF assms(1,2) m] assms(3) have "intervals s = []" by auto
  with True show ?thesis by (simp add: tick_hooks)
next
  case False
  then show ?thesis by (rule duration_fire)
qed

lemma once_artifact_kept:
  assumes "recorderWorks rt" "reachableOnce rt s" "enabled e s" "audioBlob (hooks s) = Some b"
  shows "audioBlob (hooks (fire rt e s)) = Some b"
proof (cases "e = ClickStop \<or> e = ClickCancel")
  case False
  with assms(4) show ?thesis by (simp add: audioBlob_fire_other)
next
  case True
  with assms(3) have m: "mounted s" by (auto simp: view_def split: if_splits)
  from assms(1,2) have "invOnce rt s" by (rule reachableOnce_inv)
  with m assms(4) have "\<not> isRecording (hooks s)" by (auto simp: invOnce_def split: if_splits)
  then have "stopRecording (hooks s) s = s" by (simp add: stopRecording_noop)
  with True assms(4) show ?thesis by (auto simp: hooks_unmount hooks_handleCancel)
qed

lemma once_stop_releases:
  assumes "recorderWorks rt" "reachableOnce rt s" "phase s = Recording \<or> phase s = Paused"
  shows "liveStreams (fire rt ClickStop s) = []" "intervals (fire rt ClickStop s) = []"
proof -
  from assms(2) have "reachable rt s" by (rule reachableOnce_reachable)
  from stop_click(3) [OF this assms(3)] have p: "phase (fire rt ClickStop s) = Ready" .
  from assms(1,2) have "invOnce rt s" by (rule reachableOnce_inv)
  then have "invOnce rt (stopRecording (hooks s) s)" by (rule invOnce_stop)
  then have i: "invOnce rt (fire rt ClickStop s)" by simp
  from p have "mounted (fire rt ClickStop s)" "\<not> isRecording (hooks (fire rt ClickStop s))"
    by (auto simp: phase_def split: if_splits)
  with i show "liveStreams (fire rt ClickStop s) = []" "intervals (fire rt ClickStop s) = []"
    by (auto simp: invOnce_def simp del: fire.simps)
qed

lemma once_cancel_releases:
  assumes "recorderWorks rt" "reachableOnce rt s" "phase s = Ready \<or> phase s = Idle"
  shows "liveStreams (fire rt ClickCancel s) = []" "intervals (fire rt ClickCancel s) = []"
    "objectUrls (fire rt ClickCancel s) = []"
proof -
  from assms(3) have m: "mounted s" and r: "\<not> isRecording (hooks s)"
    by (auto simp: phase_def split: if_splits)
  from assms(1,2) have "invOnce rt s" by (rule reachableOnce_inv)
  with m r show "liveStreams (fire rt ClickCancel s) = []" "intervals (fire rt ClickCancel s) = []"
    "objectUrls (fire rt ClickCancel s) = []"
    by (auto simp: unmount_eq handleCancel_eq stopRecording_noop invOnce_def Let_def
        split: option.splits)
qed

lemma scenario_run:
  assumes "isAudioRecordingSupported rt" "recorderWorks rt"
  shows "\<exists>s. run rt scenario initialRecorder = Some s \<and> duration (hooks s) = 5
          \<and> audioBlob (hooks s) \<noteq> None \<and> liveStreams s = [] \<and> phase s = Ready"
  using assms
  by (simp add: scenario_def initialRecorder_def initialHooks_def startRecording_supported
      startRecording_resume_resolved recorderWorks_def view_def tick_hooks pauseRecording_def stopRecording_def
      mr_pause_def mr_resume_def mr_stop_def onstop_def stopTimer_def startTimer_def setters browser
      phase_def Let_def)

lemma scenario_paused:
  assumes "isAudioRecordingSupported rt" "recorderWorks rt"
  shows "\<exists>s. run rt (take 8 scenario) initialRecorder = Some s \<and> duration (hooks s) = 3
          \<and> phase s = Paused"
  using assms
  by (simp add: scenario_def initialRecorder_def initialHooks_def startRecording_supported
      startRecording_resume_resolved recorderWorks_def view_def tick_hooks pauseRecording_def mr_pause_def
      stopTimer_def setters browser phase_def Let_def)

lemma stopTimer_idem: "stopTimer (stopTimer s) = stopTimer s"
  by (simp add: stopTimer_def clearInterval_def split: option.splits)

lemma stopRecording_twice:
  "stopRecording (hooks (stopRecording (hooks s) s)) (stopRecording (hooks s) s)
     = stopRecording (hooks s) s"
proof (rule stopRecording_cases [where r = "hooks s" and s = s])
  assume "stopRecording (hooks s) s = s"
  then show ?thesis by simp
next
  fix mr assume mr: "mediaRecorderRef s = Some mr" and r: "isRecording (hooks s)"
  have "\<not> isRecording (hooks (stopRecording (hooks s) s))"
    by (simp add: stopRecording_active [OF mr r])
  then show ?thesis by (simp add: stopRecording_noop)
qed


subsection \<open>The claims about the recorder\<close>

text \<open>
  C4. The claim says that stop always releases the tracks of the capture device.
  Evaluated at the session whose start button is clicked twice before the browser
  answers, both requests granted: two streams are live and \<^verbatim>\<open>streamRef\<close> holds
  the second. The stop click, with the stop event of the recorder delivered, builds the
  artifact with the negotiated type and stops the tracks of the stream in
  \<^verbatim>\<open>streamRef\<close>; the stream of the first start stays live, its recorder keeps
  recording and its interval keeps running, and the cancel click after that releases none
  of them. In every reachable state the artifact is built as the claim says
  (\<open>stop_click\<close>, \<open>chunks_fold\<close>, \<open>audioBlob_fire_other\<close>), and for sessions
  started once, with a recorder that constructs and starts, no stream stays live after
  the stop (\<open>once_stop_releases\<close>).
\<close>

theorem stop_leaves_stream_live_after_double_start:
  "run sampleRuntime doubleStart initialRecorder = Some doubleStartState
   \<and> reachable sampleRuntime doubleStartState
   \<and> phase doubleStartState = Recording
   \<and> enabled ClickStop doubleStartState
   \<and> liveStreams doubleStartState = [1, 3]
   \<and> streamRef doubleStartState = Some 3
   \<and> map_option (\<lambda>s. (phase s, audioBlob (hooks s), liveStreams s, intervals s,
                       map mrState (supersededRecorders s)))
        (run sampleRuntime (doubleStart @ [ClickStop]) initialRecorder)
     = Some (Ready, Some \<lparr>bdata = [], btype = ''audio/mp4''\<rparr>, [1], [2], [RecordingS])
   \<and> map_option (\<lambda>s. (mounted s, liveStreams s, intervals s, map mrState (supersededRecorders s)))
        (run sampleRuntime (doubleStart @ [ClickStop, ClickCancel]) initialRecorder)
     = Some (False, [1], [2], [RecordingS])"
proof -
  have "phase doubleStartState = Recording" "enabled ClickStop doubleStartState"
    "liveStreams doubleStartState = [1, 3]" "streamRef doubleStartState = Some 3"
    by (simp_all add: doubleStartState_eq phase_def view_def initialHooks_def)
  moreover have "map_option (\<lambda>s. (phase s, audioBlob (hooks s), liveStreams s, intervals s,
                       map mrState (supersededRecorders s)))
        (run sampleRuntime (doubleStart @ [ClickStop]) initialRecorder)
     = Some (Ready, Some \<lparr>bdata = [], btype = ''audio/mp4''\<rparr>, [1], [2], [RecordingS])"
    by (simp add: doubleStart_def eval_defs)
  moreover have "map_option (\<lambda>s. (mounted s, liveStreams s, intervals s, map mrState (supersededRecorders s)))
        (run sampleRuntime (doubleStart @ [ClickStop, ClickCancel]) initialRecorder)
     = Some (False, [1], [2], [RecordingS])"
    by (simp add: doubleStart_def eval_defs)
  ultimately show ?thesis using doubleStart_run doubleStartState_reachable by blast
qed

text \<open>
  C7. The claim says that after a start that fails for any reason the session holds no
  resource. Evaluated at a runtime that has the capture capability and supports none of
  the listed media types, so that \<open>getSupportedMimeType\<close> answers its default and the
  recorder constructor throws: the device request is granted, the \<^verbatim>\<open>catch\<close> sets
  the message of the exception, and the session is back in the start view with the start
  button enabled and the granted stream live, its tracks never stopped. A second start
  replaces the stream in \<^verbatim>\<open>streamRef\<close>, and the cancel click then stops only the
  second: the first stays live in the unmounted component. The same holds when
  \<^verbatim>\<open>mediaRecorder.start()\<close> throws (\<open>startRecording_resume_start_throws\<close>).
  Without the capability no device request is made and only the message is set
  (\<open>startRecording_unsupported\<close>); a rejected request only sets one of three messages
  (\<open>startRecording_resume_rejected_message\<close>); the four messages are pairwise
  different (\<open>start_messages_distinct\<close>).
\<close>

theorem failed_start_keeps_stream_live:
  "isAudioRecordingSupported noEncoderRuntime
   \<and> getSupportedMimeType (isTypeSupported noEncoderRuntime) = ''audio/webm''
   \<and> newMediaRecorder noEncoderRuntime ''audio/webm'' = Some (ErrorObj notSupportedMessage)
   \<and> map_option (\<lambda>s. (phase s, error (hooks s), enabled ClickStart s, pendingRequests s,
                       streamRef s, liveStreams s, holdsNothing s))
        (run noEncoderRuntime [ClickStart, DeviceAnswer Resolved] initialRecorder)
     = Some (Idle, Some notSupportedMessage, True, 0, Some 1, [1], False)
   \<and> map_option (\<lambda>s. (phase s, streamRef s, liveStreams s))
        (run noEncoderRuntime
          [ClickStart, DeviceAnswer Resolved, ClickStart, DeviceAnswer Resolved] initialRecorder)
     = Some (Idle, Some 2, [1, 2])
   \<and> map_option (\<lambda>s. (mounted s, liveStreams s, holdsNothing s))
        (run noEncoderRuntime
          [ClickStart, DeviceAnswer Resolved, ClickStart, DeviceAnswer Resolved, ClickCancel]
          initialRecorder)
     = Some (False, [1], False)"
proof -
  note defs = startRecording_supported [OF noEncoderRuntime_supported] noEncoderRuntime_granted
    initialRecorder_def initialHooks_def view_def phase_def anyRecorderActive_def
    recorderActive_def stopRecording_def setters browser Let_def unmount_eq handleCancel_eq
    holdsNothing_def
  have "getSupportedMimeType (isTypeSupported noEncoderRuntime) = ''audio/webm''"
    using noEncoderRuntime_negotiated by (simp add: negotiated_def)
  moreover have "newMediaRecorder noEncoderRuntime ''audio/webm'' = Some (ErrorObj notSupportedMessage)"
    by (simp add: noEncoderRuntime_def)
  moreover have "map_option (\<lambda>s. (phase s, error (hooks s), enabled ClickStart s, pendingRequests s,
                       streamRef s, liveStreams s, holdsNothing s))
        (run noEncoderRuntime [ClickStart, DeviceAnswer Resolved] initialRecorder)
     = Some (Idle, Some notSupportedMessage, True, 0, Some 1, [1], False)"
    by (simp add: defs)
  moreover have "map_option (\<lambda>s. (phase s, streamRef s, liveStreams s))
        (run noEncoderRuntime
          [ClickStart, DeviceAnswer Resolved, ClickStart, DeviceAnswer Resolved] initialRecorder)
     = Some (Idle, Some 2, [1, 2])"
    by (simp add: defs)
  moreover have "map_option (\<lambda>s. (mounted s, liveStreams s, holdsNothing s))
        (run noEncoderRuntime
          [ClickStart, DeviceAnswer Resolved, ClickStart, DeviceAnswer Resolved, ClickCancel]
          initialRecorder)
     = Some (False, [1], False)"
    by (simp add: defs)
  ultimately show ?thesis using noEncoderRuntime_supported by blast
qed

text \<open>
  C10. When the snapshot holds no artifact, \<open>handleSend\<close> returns the state as it
  is: nothing is emitted to the host, no object URL is revoked, no hook changes; and the
  send click then leaves the whole state unchanged.
\<close>

theorem handleSend_without_artifact:
  "(\<forall>r s. audioBlob r = None \<longrightarrow> handleSend r s = s)
   \<and> (\<forall>s. audioBlob (hooks s) = None \<longrightarrow> fire rt ClickSend s = s)"
  by (simp add: handleSend_def)

theorem handleSend_without_artifact_witness:
  "audioBlob (hooks recordingState) = None
   \<and> handleSend (hooks recordingState) recordingState = recordingState
   \<and> fire sampleRuntime ClickSend recordingState = recordingState
   \<and> audioBlob (hooks initialRecorder) = None
   \<and> fire sampleRuntime ClickSend initialRecorder = initialRecorder"
proof -
  note T = handleSend_without_artifact [of sampleRuntime]
  have a: "audioBlob (hooks recordingState) = None"
    by (simp add: recordingState_eq initialHooks_def)
  have b: "audioBlob (hooks initialRecorder) = None"
    by (simp add: initialRecorder_def initialHooks_def)
  from T a have 1: "handleSend (hooks recordingState) recordingState = recordingState" by blast
  from T a have 2: "fire sampleRuntime ClickSend recordingState = recordingState" by blast
  from T b have 3: "fire sampleRuntime ClickSend initialRecorder = initialRecorder" by blast
  from a b 1 2 3 show ?thesis by blast
qed

text \<open>
  C3. The claim says that in Recording each tick adds exactly 1 to \<open>duration\<close> and
  that \<open>duration\<close> never changes while Paused. Evaluated at the session whose start
  button is clicked twice before the browser answers, both requests granted: the interval
  of the first start keeps running beside that of the second, so a second passing in
  Recording adds 2, and after the pause click, which clears only the interval of
  \<^verbatim>\<open>timerRef\<close>, a second passing in Paused still adds 1. For sessions started once
  the claim holds (\<open>once_recording_tick\<close>, \<open>once_paused_frozen\<close>,
  \<open>scenario_run\<close>).
\<close>

theorem paused_duration_changes_after_double_start:
  "run sampleRuntime doubleStart initialRecorder = Some doubleStartState
   \<and> phase doubleStartState = Recording
   \<and> duration (hooks (fire sampleRuntime Tick doubleStartState))
        = duration (hooks doubleStartState) + 2
   \<and> enabled ClickPause doubleStartState
   \<and> phase (fire sampleRuntime ClickPause doubleStartState) = Paused
   \<and> duration (hooks (fire sampleRuntime Tick (fire sampleRuntime ClickPause doubleStartState)))
        = duration (hooks (fire sampleRuntime ClickPause doubleStartState)) + 1"
proof -
  have "phase doubleStartState = Recording" "enabled ClickPause doubleStartState"
    "duration (hooks (fire sampleRuntime Tick doubleStartState)) = duration (hooks doubleStartState) + 2"
    by (simp_all add: doubleStartState_eq phase_def view_def initialHooks_def tick_hooks)
  moreover have "phase (fire sampleRuntime ClickPause doubleStartState) = Paused"
    "duration (hooks (fire sampleRuntime Tick (fire sampleRuntime ClickPause doubleStartState)))
        = duration (hooks (fire sampleRuntime ClickPause doubleStartState)) + 1"
    unfolding doubleStart_paused_eq
    by (simp_all add: doubleStartState_eq phase_def initialHooks_def tick_hooks)
  ultimately show ?thesis using doubleStart_run by blast
qed

text \<open>
  C8. The claim says that at most one interval runs in every reachable state, and only
  in Recording. Evaluated at the session whose start button is clicked twice before the
  browser answers, both requests granted: two intervals run in Recording, one keeps
  running in Paused, and after the resume click two run again. For sessions started once
  the claim holds (\<open>once_single_ticker\<close>, \<open>stopTimer_idem\<close>).
\<close>

theorem two_tickers_after_double_start:
  "run sampleRuntime doubleStart initialRecorder = Some doubleStartState
   \<and> reachable sampleRuntime doubleStartState
   \<and> phase doubleStartState = Recording
   \<and> intervals doubleStartState = [2, 4]
   \<and> phase (fire sampleRuntime ClickPause doubleStartState) = Paused
   \<and> intervals (fire sampleRuntime ClickPause doubleStartState) = [2]
   \<and> intervals (fire sampleRuntime ClickPause (fire sampleRuntime ClickPause doubleStartState)) = [2, 5]"
proof -
  have "phase doubleStartState = Recording" "intervals doubleStartState = [2, 4]"
    by (simp_all add: doubleStartState_eq phase_def initialHooks_def)
  moreover have "phase (fire sampleRuntime ClickPause doubleStartState) = Paused"
    "intervals (fire sampleRuntime ClickPause doubleStartState) = [2]"
    unfolding doubleStart_paused_eq by (simp_all add: doubleStartState_eq phase_def initialHooks_def)
  moreover have "intervals (fire sampleRuntime ClickPause (fire sampleRuntime ClickPause doubleStartState)) = [2, 5]"
    unfolding doubleStart_paused_eq
    by (simp add: doubleStartState_eq pauseRecording_def mr_resume_def startTimer_def
        setInterval_def setIsPaused_def initialHooks_def)
  ultimately show ?thesis using doubleStart_run doubleStartState_reachable by blast
qed

text \<open>
  C5. The claim says that the artifact, once set, is never overwritten. Evaluated at
  the session whose start button is clicked twice, the first request granted, a fragment
  recorded and the session stopped, and the second request granted only then: the session
  records again, and the second stop replaces the artifact by an empty one; the object URL
  of the first artifact is never revoked. For sessions started once the claim holds
  (\<open>once_artifact_kept\<close>, \<open>stopRecording_twice\<close>).
\<close>

theorem artifact_overwritten_after_double_start:
  "map_option (\<lambda>s. (phase s, audioBlob (hooks s), objectUrls s))
      (run sampleRuntime (take 5 overwriteRun) initialRecorder)
     = Some (Ready, Some \<lparr>bdata = [1, 2], btype = ''audio/mp4''\<rparr>, [3])
   \<and> map_option (\<lambda>s. (phase s, audioBlob (hooks s), objectUrls s))
        (run sampleRuntime overwriteRun initialRecorder)
     = Some (Ready, Some \<lparr>bdata = [], btype = ''audio/mp4''\<rparr>, [3, 6])"
  by (simp add: overwriteRun_def eval_defs)

text \<open>
  C6. The claim says that after cancel no resource remains held. Evaluated at two
  sessions. Started, granted, and cancelled while Recording: the cancel click stops the
  stream and the interval and notifies the host, which unmounts the component, but the
  object URL that \<open>onstop\<close> created for the finalized blob is still there:
  \<open>handleCancel\<close> tests the \<^verbatim>\<open>audioUrl\<close> of its render, which is null while
  recording, and the cleanup tests that of the first render. Start clicked and cancelled
  while the device request is pending, the request granted afterwards: the suspended
  \<open>startRecording\<close> resumes in the unmounted component, and its stream and its
  interval are never released. In a session started once, with a recorder that constructs
  and starts, cancel from Ready or from Idle releases everything at that moment
  (\<open>once_cancel_releases\<close>).
\<close>

theorem cancel_keeps_resources:
  "map_option (\<lambda>s. (mounted s, cancelCalls s, liveStreams s, intervals s, objectUrls s, holdsNothing s))
      (run sampleRuntime [ClickStart, DeviceAnswer Resolved, ClickCancel] initialRecorder)
     = Some (False, 1, [], [], [3], False)
   \<and> map_option (\<lambda>s. (mounted s, cancelCalls s, liveStreams s, intervals s, objectUrls s, holdsNothing s))
        (run sampleRuntime [ClickStart, ClickCancel, DeviceAnswer Resolved] initialRecorder)
     = Some (False, 1, [1], [2], [], False)"
  by (simp add: eval_defs)

end
